theory Spec2Isabelle
  imports Complex_Main
begin

section \<open>Results of the JavaScript code\<close>

text \<open>
  A method of \<^verbatim>\<open>js.js\<close> either returns, throws a \<^verbatim>\<open>TypeError\<close> (a property
  read on \<^verbatim>\<open>undefined\<close>), or stays in the \<^verbatim>\<open>while (true)\<close> loop of
  \<^verbatim>\<open>getRandomFreeCoordinates\<close>. The values of \<^verbatim>\<open>Math.random()\<close> are given
  to the model as a finite list of draws; \<open>NoReturn\<close> says that the loop used all
  of them without returning. \<open>NotAPoint\<close> marks the two places where the JavaScript
  would store \<^verbatim>\<open>undefined\<close> or \<^verbatim>\<open>{}\<close> in the snake's body, which the type
  of the body (a list of points) cannot hold.
\<close>

datatype error = TypeError | NoReturn | NotAPoint

definition andThen :: "error + 'a \<Rightarrow> ('a \<Rightarrow> error + 'b) \<Rightarrow> error + 'b" where
  "andThen r f = (case r of Inl e \<Rightarrow> Inl e | Inr v \<Rightarrow> f v)"

section \<open>config\<close>

record settings =
  rowsCount :: int
  colsCount :: int
  speed :: int
  winFoodCount :: int

definition default_settings :: settings where
  "default_settings = \<lparr>rowsCount = 21, colsCount = 21, speed = 2, winFoodCount = 50\<rparr>"

text \<open>
  The four messages pushed by \<^verbatim>\<open>validate\<close>, in the order of the source. The last
  message names the setting \<^verbatim>\<open>winLength\<close>.
\<close>

datatype message = RowsCountRange | ColsCountRange | SpeedRange | WinLengthRange

record validation =
  isValid :: bool
  errors :: "message list"

definition report :: "message \<Rightarrow> validation \<Rightarrow> validation" where
  \<comment> \<open>\<^verbatim>\<open>result.isValid = false; result.errors.push(m)\<close>\<close>
  "report m result = result\<lparr>isValid := False, errors := errors result @ [m]\<rparr>"

definition validate :: "settings \<Rightarrow> validation" where
  "validate s =
    (let result = \<lparr>isValid = True, errors = []\<rparr>;
         result = (if rowsCount s < 10 \<or> rowsCount s > 30
                   then report RowsCountRange result else result);
         result = (if colsCount s < 10 \<or> colsCount s > 30
                   then report ColsCountRange result else result);
         result = (if speed s < 1 \<or> speed s > 10
                   then report SpeedRange result else result);
         result = (if winFoodCount s < 5 \<or> winFoodCount s > 50
                   then report WinLengthRange result else result)
     in result)"

section \<open>snake\<close>

text \<open>A point \<^verbatim>\<open>{x, y}\<close> is the pair \<open>(x, y)\<close>.\<close>

type_synonym point = "int \<times> int"

record snake =
  body :: "point list"
  direction :: string
  lastStepDirection :: string
  maxX :: int
  maxY :: int

definition snake_init :: "point list \<Rightarrow> string \<Rightarrow> int \<Rightarrow> int \<Rightarrow> snake" where
  "snake_init startBody d mx my =
     \<lparr>body = startBody, direction = d, lastStepDirection = d, maxX = mx, maxY = my\<rparr>"

definition getBody :: "snake \<Rightarrow> point list" where
  "getBody s = body s"

definition getLastStepDirection :: "snake \<Rightarrow> string" where
  "getLastStepDirection s = lastStepDirection s"

text \<open>
  \<^verbatim>\<open>isOnPoint(point)\<close> is called with the value of \<^verbatim>\<open>getNextStepHeadPoint()\<close>,
  which is \<^verbatim>\<open>undefined\<close> (\<open>None\<close>) when no case of its switch matches. The callback
  of \<^verbatim>\<open>some\<close> reads \<^verbatim>\<open>point.x\<close>, so it throws on \<^verbatim>\<open>undefined\<close> unless
  the body is empty and the callback never runs.
\<close>

definition snake_isOnPoint :: "snake \<Rightarrow> point option \<Rightarrow> error + bool" where
  "snake_isOnPoint s point =
     (case point of
        None \<Rightarrow> (if body s = [] then Inr False else Inl TypeError)
      | Some p \<Rightarrow>
          Inr (list_ex (\<lambda>snakePoint. fst snakePoint = fst p \<and> snd snakePoint = snd p) (body s)))"

definition getNextStepHeadPoint :: "snake \<Rightarrow> error + point option" where
  "getNextStepHeadPoint s =
     (let firstPoint = (case body s of [] \<Rightarrow> None | p # _ \<Rightarrow> Some p) in
      if direction s = ''up'' then
        (case firstPoint of None \<Rightarrow> Inl TypeError
         | Some (fx, fy) \<Rightarrow> Inr (Some (fx, if fy \<noteq> 0 then fy - 1 else maxY s)))
      else if direction s = ''right'' then
        (case firstPoint of None \<Rightarrow> Inl TypeError
         | Some (fx, fy) \<Rightarrow> Inr (Some (if fx \<noteq> maxX s then fx + 1 else 0, fy)))
      else if direction s = ''down'' then
        (case firstPoint of None \<Rightarrow> Inl TypeError
         | Some (fx, fy) \<Rightarrow> Inr (Some (fx, if fy \<noteq> maxY s then fy + 1 else 0)))
      else if direction s = ''left'' then
        (case firstPoint of None \<Rightarrow> Inl TypeError
         | Some (fx, fy) \<Rightarrow> Inr (Some (if fx \<noteq> 0 then fx - 1 else maxX s, fy)))
      else Inr None)"

text \<open>
  \<^verbatim>\<open>makeStep\<close>: \<^verbatim>\<open>unshift\<close> of the next head, then \<^verbatim>\<open>pop\<close>. With an
  \<^verbatim>\<open>undefined\<close> next head the body would become \<^verbatim>\<open>[undefined, ...]\<close>, except
  for an empty body, where \<^verbatim>\<open>pop\<close> removes the \<^verbatim>\<open>undefined\<close> again.
\<close>

definition makeStep :: "snake \<Rightarrow> error + snake" where
  "makeStep s =
     (let s1 = s\<lparr>lastStepDirection := direction s\<rparr> in
      andThen (getNextStepHeadPoint s1) (\<lambda>next.
        case next of
          None \<Rightarrow> (if body s1 = [] then Inr s1 else Inl NotAPoint)
        | Some p \<Rightarrow> Inr (s1\<lparr>body := butlast (p # body s1)\<rparr>)))"

text \<open>
  \<^verbatim>\<open>growUp\<close>: on an empty body \<^verbatim>\<open>body[-1]\<close> is \<^verbatim>\<open>undefined\<close> and the clone
  pushed is \<^verbatim>\<open>{}\<close>.
\<close>

definition growUp :: "snake \<Rightarrow> error + snake" where
  "growUp s =
     (if body s = [] then Inl NotAPoint
      else
        let lastBodyIdx = length (body s) - 1;
            lastBodyPoint = body s ! lastBodyIdx;
            lastBodyPointClone = lastBodyPoint
        in Inr (s\<lparr>body := body s @ [lastBodyPointClone]\<rparr>))"

definition setDirection :: "snake \<Rightarrow> string \<Rightarrow> snake" where
  "setDirection s d = s\<lparr>direction := d\<rparr>"

section \<open>food\<close>

text \<open>The coordinates of the food are \<^verbatim>\<open>null\<close> (\<open>None\<close>) until the first placement.\<close>

record food =
  food_x :: "int option"
  food_y :: "int option"

definition getCoordinates :: "food \<Rightarrow> int option \<times> int option" where
  "getCoordinates f = (food_x f, food_y f)"

definition setCoordinates :: "food \<Rightarrow> point \<Rightarrow> food" where
  "setCoordinates f point = f\<lparr>food_x := Some (fst point), food_y := Some (snd point)\<rparr>"

definition food_isOnPoint :: "food \<Rightarrow> point option \<Rightarrow> error + bool" where
  "food_isOnPoint f point =
     (case point of
        None \<Rightarrow> Inl TypeError
      | Some p \<Rightarrow> Inr (food_x f = Some (fst p) \<and> food_y f = Some (snd p)))"

section \<open>status\<close>

datatype condition = Playing | Stopped | Finished

record status =
  condition :: "condition option"

definition setPlaying :: "status \<Rightarrow> status" where
  "setPlaying st = st\<lparr>condition := Some Playing\<rparr>"

definition setStopped :: "status \<Rightarrow> status" where
  "setStopped st = st\<lparr>condition := Some Stopped\<rparr>"

definition setFinished :: "status \<Rightarrow> status" where
  "setFinished st = st\<lparr>condition := Some Finished\<rparr>"

definition isPlaying :: "status \<Rightarrow> bool" where
  "isPlaying st = (condition st = Some Playing)"

definition isStopped :: "status \<Rightarrow> bool" where
  "isStopped st = (condition st = Some Stopped)"

section \<open>score\<close>

record score =
  count :: int

definition increment :: "score \<Rightarrow> score" where
  "increment sc = sc\<lparr>count := count sc + 1\<rparr>"

definition score_drop :: "score \<Rightarrow> score" where
  "score_drop sc = sc\<lparr>count := 0\<rparr>"

section \<open>game\<close>

text \<open>
  The game object with the part of the browser it acts on: the interval timers that are
  active (\<^verbatim>\<open>setInterval\<close> adds a fresh id, \<^verbatim>\<open>clearInterval\<close> removes one) and
  the play button, whose three texts are the constructors of \<open>label\<close>. The delay
  \<^verbatim>\<open>1000 / speed\<close> of the interval is not represented: a callback of an active interval
  is the event \<open>Tick\<close> below, at any time. The table cells written by
  \<^verbatim>\<open>map.render\<close> and the score element are display only: no method reads them back,
  \<^verbatim>\<open>render()\<close> is the last statement of \<^verbatim>\<open>reset\<close> and of \<^verbatim>\<open>tickHandler\<close>,
  and they are left out. The elements \<^verbatim>\<open>playButton\<close> and \<^verbatim>\<open>score-count\<close> are
  taken to exist in the page.
\<close>

datatype label = Start | Stop | GameOver

record playButton =
  textContent :: label
  disabled :: bool

record game =
  config :: settings
  snake :: snake
  food :: food
  status :: status
  score :: score
  tickInterval :: "nat option"
  intervals :: "nat list"
  nextInterval :: nat
  button :: playButton

definition setInterval :: "game \<Rightarrow> game" where
  \<comment> \<open>\<^verbatim>\<open>this.tickInterval = setInterval(...)\<close>\<close>
  "setInterval g =
     g\<lparr>tickInterval := Some (nextInterval g),
       intervals := intervals g @ [nextInterval g],
       nextInterval := Suc (nextInterval g)\<rparr>"

definition clearInterval :: "game \<Rightarrow> game" where
  \<comment> \<open>\<^verbatim>\<open>clearInterval(this.tickInterval)\<close>; nothing happens on \<^verbatim>\<open>null\<close> or a stale id\<close>
  "clearInterval g =
     (case tickInterval g of
        None \<Rightarrow> g
      | Some i \<Rightarrow> g\<lparr>intervals := removeAll i (intervals g)\<rparr>)"

definition setPlayButton :: "game \<Rightarrow> label \<Rightarrow> bool \<Rightarrow> game" where
  "setPlayButton g txt isDisabled = g\<lparr>button := \<lparr>textContent = txt, disabled = isDisabled\<rparr>\<rparr>"

definition play :: "game \<Rightarrow> game" where
  "play g =
     (let g1 = g\<lparr>status := setPlaying (status g)\<rparr>;
          g2 = setInterval g1
      in setPlayButton g2 Stop False)"

definition stop :: "game \<Rightarrow> game" where
  "stop g =
     (let g1 = g\<lparr>status := setStopped (status g)\<rparr>;
          g2 = clearInterval g1
      in setPlayButton g2 Start False)"

definition finish :: "game \<Rightarrow> game" where
  "finish g =
     (let g1 = g\<lparr>status := setFinished (status g)\<rparr>;
          g2 = clearInterval g1
      in setPlayButton g2 GameOver True)"

definition getStartSnakeBody :: "game \<Rightarrow> point list" where
  "getStartSnakeBody g = [(colsCount (config g) div 2, rowsCount (config g) div 2)]"

text \<open>
  The list \<^verbatim>\<open>exclude\<close> built by \<^verbatim>\<open>getRandomFreeCoordinates\<close>: the coordinates of
  the food first, then the points of the body.
\<close>

definition exclude :: "game \<Rightarrow> (int option \<times> int option) list" where
  "exclude g =
     getCoordinates (food g) # map (\<lambda>p. (Some (fst p), Some (snd p))) (getBody (snake g))"

text \<open>
  The loop of \<^verbatim>\<open>getRandomFreeCoordinates\<close>. Each round takes two values of
  \<^verbatim>\<open>Math.random()\<close>, the one for \<^verbatim>\<open>x\<close> first. A draw is a real number and
  \<^verbatim>\<open>Math.floor(Math.random() * n)\<close> is the floor of the exact product; the rounding of
  the floating-point product is not represented. With the draws used up the result is
  \<open>NoReturn\<close>.
\<close>

fun randomFree :: "(int option \<times> int option) list \<Rightarrow> int \<Rightarrow> int \<Rightarrow> real list
    \<Rightarrow> error + point \<times> real list" where
  "randomFree excl cols rows (r1 # r2 # rs) =
     (let rndPoint = (\<lfloor>r1 * of_int cols\<rfloor>, \<lfloor>r2 * of_int rows\<rfloor>) in
      if \<not> list_ex (\<lambda>exPoint. Some (fst rndPoint) = fst exPoint \<and> Some (snd rndPoint) = snd exPoint) excl
      then Inr (rndPoint, rs)
      else randomFree excl cols rows rs)"
| "randomFree excl cols rows rs = Inl NoReturn"

definition getRandomFreeCoordinates :: "game \<Rightarrow> real list \<Rightarrow> error + point \<times> real list" where
  "getRandomFreeCoordinates g rs =
     randomFree (exclude g) (colsCount (config g)) (rowsCount (config g)) rs"

definition reset :: "game \<Rightarrow> real list \<Rightarrow> error + game \<times> real list" where
  "reset g rs =
     (let g1 = stop g;
          g2 = g1\<lparr>score := score_drop (score g1)\<rparr>;
          g3 = g2\<lparr>snake := snake_init (getStartSnakeBody g2) ''up''
                               (colsCount (config g2) - 1) (rowsCount (config g2) - 1)\<rparr>
      in andThen (getRandomFreeCoordinates g3 rs) (\<lambda>(point, rs').
           Inr (g3\<lparr>food := setCoordinates (food g3) point\<rparr>, rs')))"

definition getDirectionByCode :: "string \<Rightarrow> string" where
  "getDirectionByCode code =
     (if code = ''KeyW'' \<or> code = ''ArrowUp'' then ''up''
      else if code = ''KeyD'' \<or> code = ''ArrowRight'' then ''right''
      else if code = ''KeyS'' \<or> code = ''ArrowDown'' then ''down''
      else if code = ''KeyA'' \<or> code = ''ArrowLeft'' then ''left''
      else '''')"

definition canSetDirection :: "game \<Rightarrow> string \<Rightarrow> bool" where
  "canSetDirection g d =
     (let lastStepDirection = getLastStepDirection (snake g) in
      d = ''up'' \<and> lastStepDirection \<noteq> ''down'' \<or>
      d = ''right'' \<and> lastStepDirection \<noteq> ''left'' \<or>
      d = ''down'' \<and> lastStepDirection \<noteq> ''up'' \<or>
      d = ''left'' \<and> lastStepDirection \<noteq> ''right'')"

definition isGameWon :: "game \<Rightarrow> bool" where
  "isGameWon g = (int (length (getBody (snake g))) > winFoodCount (config g))"

definition canMakeStep :: "game \<Rightarrow> error + bool" where
  "canMakeStep g =
     andThen (getNextStepHeadPoint (snake g)) (\<lambda>next.
     andThen (snake_isOnPoint (snake g) next) (\<lambda>onPoint.
       Inr (\<not> onPoint)))"

definition tickHandler :: "game \<Rightarrow> real list \<Rightarrow> error + game \<times> real list" where
  "tickHandler g rs =
     andThen (canMakeStep g) (\<lambda>can.
       if \<not> can then Inr (finish g, rs)
       else
         andThen (getNextStepHeadPoint (snake g)) (\<lambda>next.
         andThen (food_isOnPoint (food g) next) (\<lambda>eaten.
         andThen
           (if eaten then
              andThen (growUp (snake g)) (\<lambda>longer.
                let g1 = g\<lparr>snake := longer\<rparr>;
                    g2 = g1\<lparr>score := increment (score g1)\<rparr>
                in andThen (getRandomFreeCoordinates g2 rs) (\<lambda>(point, rs').
                     let g3 = g2\<lparr>food := setCoordinates (food g2) point\<rparr>
                     in Inr (if isGameWon g3 then finish g3 else g3, rs')))
            else Inr (g, rs))
           (\<lambda>(g4, rs4).
              andThen (makeStep (snake g4)) (\<lambda>stepped.
                Inr (g4\<lparr>snake := stepped\<rparr>, rs4))))))"

definition playClickHandler :: "game \<Rightarrow> game" where
  "playClickHandler g =
     (if isPlaying (status g) then stop g
      else if isStopped (status g) then play g
      else g)"

definition newGameClickHandler :: "game \<Rightarrow> real list \<Rightarrow> error + game \<times> real list" where
  "newGameClickHandler g rs = reset g rs"

definition keyDownHandler :: "game \<Rightarrow> string \<Rightarrow> game" where
  "keyDownHandler g code =
     (if \<not> isPlaying (status g) then g
      else
        let d = getDirectionByCode code in
        if canSetDirection g d then g\<lparr>snake := setDirection (snake g) d\<rparr> else g)"

section \<open>Runs of the game\<close>

text \<open>
  What happens after \<^verbatim>\<open>reset()\<close>: the three handlers installed by
  \<^verbatim>\<open>setEventHandlers\<close> and the callback of the interval timer, which runs
  \<^verbatim>\<open>tickHandler\<close> only while an interval is active.
\<close>

datatype event = PlayClick | NewGameClick | KeyDown string | Tick

definition handle :: "game \<Rightarrow> real list \<Rightarrow> event \<Rightarrow> error + game \<times> real list" where
  "handle g rs ev =
     (case ev of
        PlayClick \<Rightarrow> Inr (playClickHandler g, rs)
      | NewGameClick \<Rightarrow> newGameClickHandler g rs
      | KeyDown code \<Rightarrow> Inr (keyDownHandler g code, rs)
      | Tick \<Rightarrow> (if intervals g = [] then Inr (g, rs) else tickHandler g rs))"

fun run :: "game \<Rightarrow> real list \<Rightarrow> event list \<Rightarrow> error + game \<times> real list" where
  "run g rs [] = Inr (g, rs)"
| "run g rs (ev # evs) = andThen (handle g rs ev) (\<lambda>(g', rs'). run g' rs' evs)"

text \<open>
  \<^verbatim>\<open>game.init\<close> calls \<^verbatim>\<open>reset()\<close> once, before any timer exists; the fields of
  the snake, the score and the status are overwritten by \<^verbatim>\<open>reset\<close> before they are
  read, so their values in \<open>g0\<close> do not matter.
\<close>

definition started :: "game \<Rightarrow> real list \<Rightarrow> event list \<Rightarrow> error + game \<times> real list" where
  "started g0 rs evs = andThen (reset g0 rs) (\<lambda>(g, rs'). run g rs' evs)"

section \<open>Auxiliary states\<close>

text \<open>
  The states inside the then-branch of \<^verbatim>\<open>tickHandler\<close>: \<open>grown g\<close> after
  \<^verbatim>\<open>growUp()\<close> and \<^verbatim>\<open>score.increment()\<close>, where
  \<^verbatim>\<open>getRandomFreeCoordinates()\<close> is called, and \<open>fed g q\<close> after
  \<^verbatim>\<open>food.setCoordinates(q)\<close>. \<open>eats g\<close> says that a tick takes this branch:
  the next head point is not on the body and the food is on it.
\<close>

definition grown :: "game \<Rightarrow> game" where
  "grown g = g\<lparr>snake := (snake g)\<lparr>body := body (snake g) @ [last (body (snake g))]\<rparr>,
              score := increment (score g)\<rparr>"

definition fed :: "game \<Rightarrow> point \<Rightarrow> game" where
  "fed g q = g\<lparr>snake := (snake g)\<lparr>body := body (snake g) @ [last (body (snake g))]\<rparr>,
              score := increment (score g),
              food := setCoordinates (food g) q\<rparr>"

definition eats :: "game \<Rightarrow> bool" where
  "eats g =
     (case getNextStepHeadPoint (snake g) of
        Inr (Some p) \<Rightarrow>
          p \<notin> set (body (snake g)) \<and>
          food_x (food g) = Some (fst p) \<and> food_y (food g) = Some (snd p)
      | _ \<Rightarrow> False)"

text \<open>The cells of the grid: \<open>0 \<le> x < colsCount\<close>, \<open>0 \<le> y < rowsCount\<close>.\<close>

definition inGrid :: "game \<Rightarrow> point \<Rightarrow> bool" where
  "inGrid g c \<longleftrightarrow>
     0 \<le> fst c \<and> fst c < colsCount (config g) \<and> 0 \<le> snd c \<and> snd c < rowsCount (config g)"

text \<open>
  Three properties of a state. \<open>oneTimer\<close>: the only interval that can be active is
  the one stored in \<^verbatim>\<open>tickInterval\<close>, and it is active exactly while the status is
  playing. \<open>scoreMatches\<close>: the score is the length of the body minus one.
  \<open>wellFormed\<close>: the body is not empty and the direction is one of the four cases of
  the switch in \<^verbatim>\<open>getNextStepHeadPoint\<close>.
\<close>

definition oneTimer :: "game \<Rightarrow> bool" where
  "oneTimer g =
     (case tickInterval g of
        None \<Rightarrow> intervals g = [] \<and> \<not> isPlaying (status g)
      | Some i \<Rightarrow> intervals g = (if isPlaying (status g) then [i] else []))"

definition scoreMatches :: "game \<Rightarrow> bool" where
  "scoreMatches g \<longleftrightarrow> count (score g) = int (length (body (snake g))) - 1"

definition wellFormed :: "game \<Rightarrow> bool" where
  "wellFormed g \<longleftrightarrow>
     body (snake g) \<noteq> [] \<and>
     (direction (snake g) = ''up'' \<or> direction (snake g) = ''right'' \<or>
      direction (snake g) = ''down'' \<or> direction (snake g) = ''left'')"

text \<open>
  A game in progress: the snake as \<^verbatim>\<open>reset\<close> sets its bounds, one active interval,
  the score one less than the length of the body.
\<close>

definition playing_game :: "settings \<Rightarrow> point list \<Rightarrow> string \<Rightarrow> point \<Rightarrow> game" where
  "playing_game cfg b d f =
     \<lparr>config = cfg,
      snake = \<lparr>body = b, direction = d, lastStepDirection = d,
               maxX = colsCount cfg - 1, maxY = rowsCount cfg - 1\<rparr>,
      food = \<lparr>food_x = Some (fst f), food_y = Some (snd f)\<rparr>,
      status = \<lparr>condition = Some Playing\<rparr>,
      score = \<lparr>count = int (length b) - 1\<rparr>,
      tickInterval = Some 0, intervals = [0], nextInterval = 1,
      button = \<lparr>textContent = Stop, disabled = False\<rparr>\<rparr>"

text \<open>
  The objects as the script declares them, before \<^verbatim>\<open>game.init\<close> calls
  \<^verbatim>\<open>reset()\<close>: food, status and \<^verbatim>\<open>tickInterval\<close> are \<^verbatim>\<open>null\<close>, no
  interval exists. The \<^verbatim>\<open>null\<close> fields of the snake and the score are written by
  \<^verbatim>\<open>reset\<close> before anything reads them; they hold placeholders here.
\<close>

definition loaded :: "settings \<Rightarrow> game" where
  "loaded cfg =
     \<lparr>config = cfg,
      snake = \<lparr>body = [], direction = [], lastStepDirection = [], maxX = 0, maxY = 0\<rparr>,
      food = \<lparr>food_x = None, food_y = None\<rparr>,
      status = \<lparr>condition = None\<rparr>,
      score = \<lparr>count = 0\<rparr>,
      tickInterval = None, intervals = [], nextInterval = 0,
      button = \<lparr>textContent = Start, disabled = False\<rparr>\<rparr>"

text \<open>
  \<open>page\<close>: the script's call \<^verbatim>\<open>game.init({speed: 5})\<close> merges \<open>speed = 5\<close> into
  the default settings. \<open>fresh\<close>: the game after the first \<^verbatim>\<open>reset()\<close> when the
  draws put the food right above the snake. \<open>win5\<close>: the smallest valid
  \<^verbatim>\<open>winFoodCount\<close>. \<open>before_meal\<close>: a snake of length one below the food.
\<close>

definition page :: game where
  "page = loaded (default_settings\<lparr>speed := 5\<rparr>)"

definition fresh :: game where
  "fresh =
     \<lparr>config = \<lparr>rowsCount = 21, colsCount = 21, speed = 5, winFoodCount = 50\<rparr>,
      snake = \<lparr>body = [(10, 10)], direction = ''up'', lastStepDirection = ''up'',
               maxX = 20, maxY = 20\<rparr>,
      food = \<lparr>food_x = Some 10, food_y = Some 9\<rparr>,
      status = \<lparr>condition = Some Stopped\<rparr>, score = \<lparr>count = 0\<rparr>,
      tickInterval = None, intervals = [], nextInterval = 0,
      button = \<lparr>textContent = Start, disabled = False\<rparr>\<rparr>"

text \<open>
  \<open>after1\<close>: \<open>fresh\<close> after a play click and one tick, which eats. \<open>after2\<close>: one
  more tick.
\<close>

definition after1 :: game where
  "after1 = (play fresh)\<lparr>snake := (snake fresh)\<lparr>body := [(10, 9), (10, 10)]\<rparr>,
                     score := \<lparr>count = 1\<rparr>,
                     food := \<lparr>food_x = Some 3, food_y = Some 4\<rparr>\<rparr>"

definition after2 :: game where
  "after2 = \<lparr>config = \<lparr>rowsCount = 21, colsCount = 21, speed = 5, winFoodCount = 50\<rparr>,
        snake = \<lparr>body = [(10, 8), (10, 9)], direction = ''up'',
                 lastStepDirection = ''up'', maxX = 20, maxY = 20\<rparr>,
        food = \<lparr>food_x = Some 3, food_y = Some 4\<rparr>,
        status = \<lparr>condition = Some Playing\<rparr>, score = \<lparr>count = 1\<rparr>,
        tickInterval = Some 0, intervals = [0], nextInterval = 1,
        button = \<lparr>textContent = Stop, disabled = False\<rparr>\<rparr>"

definition win5 :: settings where
  "win5 = default_settings\<lparr>winFoodCount := 5\<rparr>"

definition before_meal :: game where
  "before_meal = playing_game default_settings [(10, 10)] ''up'' (10, 9)"

section \<open>Basic facts\<close>

lemma andThen_simps [simp]:
  "andThen (Inl e) f = Inl e"
  "andThen (Inr v) f = f v"
  by (simp_all add: andThen_def)

lemma andThen_Inr_iff:
  "andThen r f = Inr w \<longleftrightarrow> (\<exists>v. r = Inr v \<and> f v = Inr w)"
  by (cases r) simp_all

lemma randomFree_set_cong:
  "set e1 = set e2 \<Longrightarrow> randomFree e1 cols rows rs = randomFree e2 cols rows rs"
proof (induction e1 cols rows rs rule: randomFree.induct)
  case (1 excl cols rows r1 r2 rs)
  then show ?case by (auto simp: list_ex_iff Let_def)
qed simp_all

lemma randomFree_free:
  "randomFree excl cols rows rs = Inr (p, rs') \<Longrightarrow> (Some (fst p), Some (snd p)) \<notin> set excl"
proof (induction excl cols rows rs rule: randomFree.induct)
  case (1 excl cols rows r1 r2 rs)
  then show ?case by (auto simp: list_ex_iff Let_def split: if_splits)
qed simp_all

lemma floor_draw_bounds:
  fixes r :: real
  assumes "0 \<le> r" "r < 1" "0 < n"
  shows "0 \<le> \<lfloor>r * of_int n\<rfloor> \<and> \<lfloor>r * of_int n\<rfloor> < n"
proof -
  have "r * of_int n < 1 * of_int n"
    using assms by (intro mult_strict_right_mono) simp_all
  then have "\<lfloor>r * of_int n\<rfloor> < n" by (simp add: floor_less_iff)
  moreover have "0 \<le> r * of_int n" using assms by simp
  ultimately show ?thesis by simp
qed

lemma randomFree_in_grid:
  "randomFree excl cols rows rs = Inr (p, rs') \<Longrightarrow> \<forall>r\<in>set rs. 0 \<le> r \<and> r < 1 \<Longrightarrow>
   0 < cols \<Longrightarrow> 0 < rows \<Longrightarrow>
   0 \<le> fst p \<and> fst p < cols \<and> 0 \<le> snd p \<and> snd p < rows"
proof (induction excl cols rows rs rule: randomFree.induct)
  case (1 excl cols rows r1 r2 rs)
  show ?case
  proof (cases "list_ex (\<lambda>exPoint. Some \<lfloor>r1 * of_int cols\<rfloor> = fst exPoint \<and> Some \<lfloor>r2 * of_int rows\<rfloor> = snd exPoint) excl")
    case True
    with 1 show ?thesis by (simp add: Let_def)
  next
    case False
    with 1 have p: "p = (\<lfloor>r1 * of_int cols\<rfloor>, \<lfloor>r2 * of_int rows\<rfloor>)" by (simp add: Let_def)
    from 1 have "0 \<le> r1" "r1 < 1" "0 \<le> r2" "r2 < 1" by simp_all
    with floor_draw_bounds [of r1 cols] floor_draw_bounds [of r2 rows] 1(4,5) p
    show ?thesis by simp
  qed
qed simp_all

lemma randomFree_hit:
  assumes "0 \<le> cx" "cx < cols" "0 \<le> cy" "cy < rows" "(Some cx, Some cy) \<notin> set excl"
  shows "randomFree excl cols rows [of_int cx / of_int cols, of_int cy / of_int rows] = Inr ((cx, cy), [])"
  using assms by (auto simp: list_ex_iff Let_def)

lemma getNextStepHeadPoint_body:
  "getNextStepHeadPoint s = Inr (Some p) \<Longrightarrow> body s \<noteq> []"
  by (auto simp: getNextStepHeadPoint_def split: if_splits)

lemma getNextStepHeadPoint_lastStep [simp]:
  "getNextStepHeadPoint (s\<lparr>lastStepDirection := d\<rparr>) = getNextStepHeadPoint s"
  by (simp add: getNextStepHeadPoint_def Let_def cong: if_cong option.case_cong)

lemma getNextStepHeadPoint_grown:
  "body s \<noteq> [] \<Longrightarrow> getNextStepHeadPoint (s\<lparr>body := body s @ ys\<rparr>) = getNextStepHeadPoint s"
  by (cases "body s") (simp_all add: getNextStepHeadPoint_def Let_def cong: if_cong option.case_cong)

lemma snake_isOnPoint_Some [simp]:
  "snake_isOnPoint s (Some p) = Inr (p \<in> set (body s))"
  by (auto simp: snake_isOnPoint_def list_ex_iff prod_eq_iff)

lemma canMakeStep_Some:
  "getNextStepHeadPoint (snake g) = Inr (Some p) \<Longrightarrow> canMakeStep g = Inr (p \<notin> set (body (snake g)))"
  by (simp add: canMakeStep_def)

lemma food_isOnPoint_Some:
  "food_isOnPoint f (Some p) = Inr (food_x f = Some (fst p) \<and> food_y f = Some (snd p))"
  by (simp add: food_isOnPoint_def)

lemma makeStep_Some:
  "getNextStepHeadPoint s = Inr (Some p) \<Longrightarrow>
   makeStep s = Inr (s\<lparr>lastStepDirection := direction s, body := butlast (p # body s)\<rparr>)"
  by (simp add: makeStep_def Let_def)

lemma growUp_body:
  "body s \<noteq> [] \<Longrightarrow> growUp s = Inr (s\<lparr>body := body s @ [last (body s)]\<rparr>)"
  by (simp add: growUp_def Let_def last_conv_nth)

lemma getRandomFreeCoordinates_grown:
  assumes "body (snake g) \<noteq> []"
  shows "getRandomFreeCoordinates
           (g\<lparr>snake := (snake g)\<lparr>body := body (snake g) @ [last (body (snake g))]\<rparr>,
              score := sc\<rparr>) rs
         = getRandomFreeCoordinates g rs"
proof -
  have "last (body (snake g)) \<in> set (body (snake g))" using assms by simp
  then have "set (exclude (g\<lparr>snake := (snake g)\<lparr>body := body (snake g) @ [last (body (snake g))]\<rparr>,
              score := sc\<rparr>)) = set (exclude g)"
    by (auto simp: exclude_def getBody_def)
  then have "randomFree (exclude (g\<lparr>snake := (snake g)\<lparr>body := body (snake g) @ [last (body (snake g))]\<rparr>,
              score := sc\<rparr>)) (colsCount (config g)) (rowsCount (config g)) rs
      = randomFree (exclude g) (colsCount (config g)) (rowsCount (config g)) rs"
    by (rule randomFree_set_cong)
  then show ?thesis
    unfolding getRandomFreeCoordinates_def by simp
qed

lemma finish_fields [simp]:
  "config (finish g) = config g"
  "snake (finish g) = snake g"
  "food (finish g) = food g"
  "score (finish g) = score g"
  "status (finish g) = setFinished (status g)"
  "tickInterval (finish g) = tickInterval g"
  "nextInterval (finish g) = nextInterval g"
  "intervals (finish g) =
     (case tickInterval g of None \<Rightarrow> intervals g | Some i \<Rightarrow> removeAll i (intervals g))"
  "button (finish g) = \<lparr>textContent = GameOver, disabled = True\<rparr>"
  by (simp_all add: finish_def clearInterval_def setPlayButton_def Let_def split: option.splits)

lemma stop_fields [simp]:
  "config (stop g) = config g"
  "snake (stop g) = snake g"
  "food (stop g) = food g"
  "score (stop g) = score g"
  "status (stop g) = setStopped (status g)"
  "tickInterval (stop g) = tickInterval g"
  "nextInterval (stop g) = nextInterval g"
  "intervals (stop g) =
     (case tickInterval g of None \<Rightarrow> intervals g | Some i \<Rightarrow> removeAll i (intervals g))"
  "button (stop g) = \<lparr>textContent = Start, disabled = False\<rparr>"
  by (simp_all add: stop_def clearInterval_def setPlayButton_def Let_def split: option.splits)

lemma play_fields [simp]:
  "config (play g) = config g"
  "snake (play g) = snake g"
  "food (play g) = food g"
  "score (play g) = score g"
  "status (play g) = setPlaying (status g)"
  "tickInterval (play g) = Some (nextInterval g)"
  "nextInterval (play g) = Suc (nextInterval g)"
  "intervals (play g) = intervals g @ [nextInterval g]"
  "button (play g) = \<lparr>textContent = Stop, disabled = False\<rparr>"
  by (simp_all add: play_def setInterval_def setPlayButton_def Let_def)

lemma tickHandler_collide:
  assumes "getNextStepHeadPoint (snake g) = Inr (Some p)" and "p \<in> set (body (snake g))"
  shows "tickHandler g rs = Inr (finish g, rs)"
proof -
  have "canMakeStep g = Inr False" using assms by (simp add: canMakeStep_Some)
  then show ?thesis by (simp add: tickHandler_def)
qed

lemma tickHandler_move:
  assumes "getNextStepHeadPoint (snake g) = Inr (Some p)" and "p \<notin> set (body (snake g))"
    and "\<not> (food_x (food g) = Some (fst p) \<and> food_y (food g) = Some (snd p))"
  shows "tickHandler g rs =
     Inr (g\<lparr>snake := (snake g)\<lparr>lastStepDirection := direction (snake g),
                               body := butlast (p # body (snake g))\<rparr>\<rparr>, rs)"
proof -
  have can: "canMakeStep g = Inr True" using assms(1,2) by (simp add: canMakeStep_Some)
  have eaten: "food_isOnPoint (food g) (Some p) = Inr False"
    using assms(3) by (simp add: food_isOnPoint_Some)
  show ?thesis
    by (simp add: tickHandler_def can eaten assms(1) makeStep_Some [OF assms(1)])
qed

lemma tickHandler_eat:
  assumes "getNextStepHeadPoint (snake g) = Inr (Some p)" and "p \<notin> set (body (snake g))"
    and "food_x (food g) = Some (fst p) \<and> food_y (food g) = Some (snd p)"
  shows "tickHandler g rs =
     andThen (getRandomFreeCoordinates g rs) (\<lambda>(q, rs').
       let g4 = (if isGameWon (fed g q) then finish (fed g q) else fed g q) in
       Inr (g4\<lparr>snake := (snake g4)\<lparr>lastStepDirection := direction (snake g),
                                   body := p # body (snake g)\<rparr>\<rparr>, rs'))"
proof -
  have ne: "body (snake g) \<noteq> []" using assms(1) by (rule getNextStepHeadPoint_body)
  have can: "canMakeStep g = Inr True" using assms(1,2) by (simp add: canMakeStep_Some)
  have eaten: "food_isOnPoint (food g) (Some p) = Inr True"
    using assms(3) by (simp add: food_isOnPoint_Some)
  show ?thesis
  proof (cases "getRandomFreeCoordinates g rs")
    case (Inl e)
    then show ?thesis using ne
      by (simp add: tickHandler_def can eaten assms(1) growUp_body getRandomFreeCoordinates_grown)
  next
    case (Inr v)
    obtain q rs' where v: "v = (q, rs')" by (cases v)
    have next': "getNextStepHeadPoint (snake (fed g q)) = Inr (Some p)"
      "getNextStepHeadPoint (snake (finish (fed g q))) = Inr (Some p)"
      using assms(1) ne by (simp_all add: fed_def getNextStepHeadPoint_grown)
    have bd: "body (snake (fed g q)) = body (snake g) @ [last (body (snake g))]"
      "body (snake (finish (fed g q))) = body (snake g) @ [last (body (snake g))]"
      "direction (snake (fed g q)) = direction (snake g)"
      "direction (snake (finish (fed g q))) = direction (snake g)"
      by (simp_all add: fed_def)
    have "tickHandler g rs =
       (let g4 = (if isGameWon (fed g q) then finish (fed g q) else fed g q) in
        andThen (makeStep (snake g4)) (\<lambda>stepped. Inr (g4\<lparr>snake := stepped\<rparr>, rs')))"
      using ne Inr v
      by (simp add: tickHandler_def can eaten assms(1) growUp_body getRandomFreeCoordinates_grown
          fed_def Let_def)
    also have "\<dots> = (let g4 = (if isGameWon (fed g q) then finish (fed g q) else fed g q) in
       Inr (g4\<lparr>snake := (snake g4)\<lparr>lastStepDirection := direction (snake g),
                                   body := p # body (snake g)\<rparr>\<rparr>, rs'))"
      using next' bd by (simp add: Let_def makeStep_Some butlast_append)
    finally show ?thesis using Inr v by simp
  qed
qed

lemmas game_defs =
  started_def reset_def handle_def playClickHandler_def newGameClickHandler_def
  keyDownHandler_def tickHandler_def canMakeStep_def getNextStepHeadPoint_def
  snake_isOnPoint_def food_isOnPoint_def growUp_def makeStep_def setDirection_def
  getRandomFreeCoordinates_def exclude_def getCoordinates_def setCoordinates_def getBody_def
  getLastStepDirection_def canSetDirection_def getDirectionByCode_def isGameWon_def
  play_def stop_def finish_def setInterval_def clearInterval_def setPlayButton_def
  setPlaying_def setStopped_def setFinished_def isPlaying_def isStopped_def
  increment_def score_drop_def snake_init_def getStartSnakeBody_def
  loaded_def default_settings_def

lemma status_simps [simp]:
  "isPlaying (setPlaying st)" "\<not> isPlaying (setStopped st)" "\<not> isPlaying (setFinished st)"
  "isStopped (setStopped st)" "\<not> isStopped (setPlaying st)" "\<not> isStopped (setFinished st)"
  "condition (setFinished st) = Some Finished"
  "condition (setStopped st) = Some Stopped"
  "condition (setPlaying st) = Some Playing"
  by (simp_all add: isPlaying_def isStopped_def setPlaying_def setStopped_def setFinished_def)

lemma fed_grown: "fed g q = (grown g)\<lparr>food := setCoordinates (food g) q\<rparr>"
  by (simp add: fed_def grown_def)

lemma getRandomFreeCoordinates_free:
  assumes "getRandomFreeCoordinates g rs = Inr (p, rs')"
  shows "p \<notin> set (body (snake g))"
    and "\<not> (food_x (food g) = Some (fst p) \<and> food_y (food g) = Some (snd p))"
proof -
  have "(Some (fst p), Some (snd p)) \<notin> set (exclude g)"
    using assms unfolding getRandomFreeCoordinates_def by (rule randomFree_free)
  then show "p \<notin> set (body (snake g))"
    and "\<not> (food_x (food g) = Some (fst p) \<and> food_y (food g) = Some (snd p))"
    by (auto simp: exclude_def getCoordinates_def getBody_def image_iff)
qed

lemma tickHandler_Inr_next:
  assumes "tickHandler g rs = Inr (g', rs')"
  shows "\<exists>p. getNextStepHeadPoint (snake g) = Inr (Some p)"
proof (cases "getNextStepHeadPoint (snake g)")
  case (Inl e)
  then show ?thesis using assms by (simp add: tickHandler_def canMakeStep_def)
next
  case (Inr np)
  show ?thesis
  proof (cases np)
    case None
    then show ?thesis using assms Inr
      by (simp add: tickHandler_def canMakeStep_def snake_isOnPoint_def food_isOnPoint_def
          split: if_splits)
  next
    case (Some p)
    then show ?thesis using Inr by simp
  qed
qed

lemma eatsD:
  assumes "eats g"
  obtains p where "getNextStepHeadPoint (snake g) = Inr (Some p)"
    and "p \<notin> set (body (snake g))"
    and "food_x (food g) = Some (fst p) \<and> food_y (food g) = Some (snd p)"
  using assms by (auto simp: eats_def split: sum.splits option.splits)

lemma eatsI:
  "getNextStepHeadPoint (snake g) = Inr (Some p) \<Longrightarrow> p \<notin> set (body (snake g)) \<Longrightarrow>
   food_x (food g) = Some (fst p) \<and> food_y (food g) = Some (snd p) \<Longrightarrow> eats g"
  by (simp add: eats_def)

lemma isGameWon_fed:
  "isGameWon (fed g q) = (int (length (body (snake g))) + 1 > winFoodCount (config g))"
  by (auto simp: isGameWon_def fed_def getBody_def)

lemma tickHandler_eat_Inr:
  assumes "getNextStepHeadPoint (snake g) = Inr (Some p)" and "p \<notin> set (body (snake g))"
    and "food_x (food g) = Some (fst p) \<and> food_y (food g) = Some (snd p)"
    and "getRandomFreeCoordinates g rs = Inr (q, rs')"
  shows "tickHandler g rs =
     Inr ((if isGameWon (fed g q) then finish (fed g q) else fed g q)
            \<lparr>snake := (snake g)\<lparr>lastStepDirection := direction (snake g),
                                 body := p # body (snake g)\<rparr>\<rparr>, rs')"
proof -
  have "snake (if isGameWon (fed g q) then finish (fed g q) else fed g q) = snake (fed g q)"
    by simp
  then show ?thesis
    unfolding tickHandler_eat [OF assms(1-3)] assms(4)
    by (simp add: Let_def fed_def)
qed

lemma grown_fields [simp]:
  "config (grown g) = config g"
  "food (grown g) = food g"
  "status (grown g) = status g"
  "body (snake (grown g)) = body (snake g) @ [last (body (snake g))]"
  "score (grown g) = increment (score g)"
  by (simp_all add: grown_def)

lemma getRandomFreeCoordinates_grown':
  "body (snake g) \<noteq> [] \<Longrightarrow> getRandomFreeCoordinates (grown g) rs = getRandomFreeCoordinates g rs"
  unfolding grown_def by (rule getRandomFreeCoordinates_grown)

lemma exclude_grown:
  assumes "food_x (food g) = Some (fst p) \<and> food_y (food g) = Some (snd p)"
  shows "set (exclude (grown g)) =
           insert (Some (fst p), Some (snd p))
             ((\<lambda>c. (Some (fst c), Some (snd c))) ` set (body (snake (grown g))))"
  using assms by (simp add: exclude_def getCoordinates_def getBody_def)

lemma tickHandler_eat_placement:
  assumes "getNextStepHeadPoint (snake g) = Inr (Some p)" and "p \<notin> set (body (snake g))"
    and "food_x (food g) = Some (fst p) \<and> food_y (food g) = Some (snd p)"
  shows "case tickHandler g rs of
           Inl e \<Rightarrow> getRandomFreeCoordinates (grown g) rs = Inl e
         | Inr (g', rs') \<Rightarrow>
             \<exists>q. getRandomFreeCoordinates (grown g) rs = Inr (q, rs') \<and>
                 food g' = \<lparr>food_x = Some (fst q), food_y = Some (snd q)\<rparr>"
proof -
  have ne: "body (snake g) \<noteq> []" using assms(1) by (rule getNextStepHeadPoint_body)
  show ?thesis
  proof (cases "getRandomFreeCoordinates g rs")
    case (Inl e)
    then show ?thesis
      unfolding tickHandler_eat [OF assms] getRandomFreeCoordinates_grown' [OF ne] by simp
  next
    case (Inr v)
    obtain q rs' where v: "v = (q, rs')" by (cases v)
    show ?thesis
      unfolding tickHandler_eat_Inr [OF assms Inr [unfolded v]]
        getRandomFreeCoordinates_grown' [OF ne] Inr v
      by (simp add: fed_def setCoordinates_def)
  qed
qed

lemma placement_hit:
  assumes "inGrid g c" and "c \<notin> set (body (snake g))"
    and "\<not> (food_x (food g) = Some (fst c) \<and> food_y (food g) = Some (snd c))"
  shows "getRandomFreeCoordinates g
           [of_int (fst c) / of_int (colsCount (config g)),
            of_int (snd c) / of_int (rowsCount (config g))] = Inr (c, [])"
proof -
  have "(Some (fst c), Some (snd c)) \<notin> set (exclude g)"
    using assms(2,3) by (auto simp: exclude_def getCoordinates_def getBody_def)
  then have "randomFree (exclude g) (colsCount (config g)) (rowsCount (config g))
      [of_int (fst c) / of_int (colsCount (config g)),
       of_int (snd c) / of_int (rowsCount (config g))] = Inr ((fst c, snd c), [])"
    using assms(1) by (intro randomFree_hit) (simp_all add: inGrid_def)
  then show ?thesis by (simp add: getRandomFreeCoordinates_def)
qed

lemma draw_in_unit:
  fixes n :: int
  assumes "0 \<le> k" "k < n"
  shows "0 \<le> (of_int k / of_int n :: real) \<and> (of_int k / of_int n :: real) < 1"
  using assms by simp

lemma before_meal_next:
  "getNextStepHeadPoint (snake before_meal) = Inr (Some (10, 9))"
  by (simp add: before_meal_def playing_game_def getNextStepHeadPoint_def)

lemma before_meal_free: "(10, 9) \<notin> set (body (snake before_meal))"
  by (simp add: before_meal_def playing_game_def)

lemma before_meal_food:
  "food_x (food before_meal) = Some (fst (10::int, 9::int)) \<and>
   food_y (food before_meal) = Some (snd (10::int, 9::int))"
  by (simp add: before_meal_def playing_game_def)

lemma randomFree_Inl: "randomFree excl cols rows rs = Inl e \<Longrightarrow> e = NoReturn"
  by (induction excl cols rows rs rule: randomFree.induct) (auto simp: Let_def split: if_splits)

section \<open>The cases of a tick\<close>

lemma reset_Inr:
  assumes "reset g rs = Inr (g', rs')"
  obtains q where
    "g' = (stop g)\<lparr>score := score_drop (score g),
                  snake := snake_init (getStartSnakeBody g) ''up''
                             (colsCount (config g) - 1) (rowsCount (config g) - 1),
                  food := setCoordinates (food g) q\<rparr>"
  using assms
  by (auto simp: reset_def Let_def andThen_Inr_iff getStartSnakeBody_def)

lemma tickHandler_Inr_cases:
  assumes "tickHandler g rs = Inr (g', rs')"
  obtains (collide) "g' = finish g" "\<not> eats g"
  | (move) p where "\<not> eats g"
      "g' = g\<lparr>snake := (snake g)\<lparr>lastStepDirection := direction (snake g),
                                  body := butlast (p # body (snake g))\<rparr>\<rparr>"
      "body (snake g) \<noteq> []"
  | (eat) p q where "eats g"
      "g' = (if isGameWon (fed g q) then finish (fed g q) else fed g q)
              \<lparr>snake := (snake g)\<lparr>lastStepDirection := direction (snake g),
                                   body := p # body (snake g)\<rparr>\<rparr>"
proof -
  from assms obtain p where p: "getNextStepHeadPoint (snake g) = Inr (Some p)"
    using tickHandler_Inr_next by blast
  then have ne: "body (snake g) \<noteq> []" by (rule getNextStepHeadPoint_body)
  show ?thesis
  proof (cases "p \<in> set (body (snake g))")
    case True
    then have "\<not> eats g" using p by (simp add: eats_def)
    moreover have "g' = finish g" using assms tickHandler_collide [OF p True] by simp
    ultimately show ?thesis by (rule collide [rotated])
  next
    case False
    show ?thesis
    proof (cases "food_x (food g) = Some (fst p) \<and> food_y (food g) = Some (snd p)")
      case True
      from assms obtain q where q: "getRandomFreeCoordinates g rs = Inr (q, rs')"
        unfolding tickHandler_eat [OF p False True] by (auto simp: andThen_Inr_iff Let_def)
      have "eats g" using p False True by (rule eatsI)
      moreover have "g' = (if isGameWon (fed g q) then finish (fed g q) else fed g q)
              \<lparr>snake := (snake g)\<lparr>lastStepDirection := direction (snake g),
                                   body := p # body (snake g)\<rparr>\<rparr>"
        using assms unfolding tickHandler_eat_Inr [OF p False True q] by simp
      ultimately show ?thesis by (rule eat)
    next
      case nf: False
      have "\<not> eats g" using p nf by (simp add: eats_def)
      moreover have "g' = g\<lparr>snake := (snake g)\<lparr>lastStepDirection := direction (snake g),
                                  body := butlast (p # body (snake g))\<rparr>\<rparr>"
        using assms unfolding tickHandler_move [OF p False nf] by simp
      ultimately show ?thesis using ne by (rule move)
    qed
  qed
qed

lemma tickHandler_score:
  assumes "tickHandler g rs = Inr (g', rs')"
  shows "if eats g
         then count (score g') = count (score g) + 1 \<and>
              length (body (snake g')) = length (body (snake g)) + 1
         else count (score g') = count (score g) \<and>
              length (body (snake g')) = length (body (snake g))"
  using assms
proof (cases rule: tickHandler_Inr_cases)
  case collide
  then show ?thesis by simp
next
  case (move p)
  then show ?thesis by simp
next
  case (eat p q)
  then show ?thesis by (simp add: fed_def increment_def)
qed

lemma keyDownHandler_frame [simp]:
  "score (keyDownHandler g code) = score g"
  "body (snake (keyDownHandler g code)) = body (snake g)"
  "status (keyDownHandler g code) = status g"
  "intervals (keyDownHandler g code) = intervals g"
  "tickInterval (keyDownHandler g code) = tickInterval g"
  by (simp_all add: keyDownHandler_def setDirection_def Let_def)

lemma playClickHandler_frame [simp]:
  "score (playClickHandler g) = score g"
  "snake (playClickHandler g) = snake g"
  by (simp_all add: playClickHandler_def)

lemma reset_score:
  assumes "reset g rs = Inr (g', rs')"
  shows "count (score g') = 0 \<and> length (body (snake g')) = 1"
  using assms by (rule reset_Inr) (simp add: score_drop_def snake_init_def getStartSnakeBody_def)

lemma handle_score:
  assumes "handle g rs ev = Inr (g', rs')"
  shows "case ev of
           NewGameClick \<Rightarrow> count (score g') = 0 \<and> length (body (snake g')) = 1
         | Tick \<Rightarrow>
             if intervals g \<noteq> [] \<and> eats g
             then count (score g') = count (score g) + 1 \<and>
                  length (body (snake g')) = length (body (snake g)) + 1
             else count (score g') = count (score g) \<and>
                  length (body (snake g')) = length (body (snake g))
         | _ \<Rightarrow> count (score g') = count (score g) \<and>
                length (body (snake g')) = length (body (snake g))"
proof (cases ev)
  case PlayClick
  then show ?thesis using assms by (auto simp: handle_def)
next
  case NewGameClick
  then show ?thesis using assms reset_score [of g rs g' rs']
    by (simp add: handle_def newGameClickHandler_def)
next
  case (KeyDown code)
  then show ?thesis using assms by (auto simp: handle_def)
next
  case Tick
  show ?thesis
  proof (cases "intervals g = []")
    case True
    then show ?thesis using assms Tick by (auto simp: handle_def)
  next
    case False
    then have "tickHandler g rs = Inr (g', rs')" using assms Tick by (simp add: handle_def)
    from tickHandler_score [OF this] show ?thesis using Tick False by simp
  qed
qed

lemma handle_scoreMatches:
  assumes "handle g rs ev = Inr (g', rs')" and "scoreMatches g"
  shows "scoreMatches g'"
  using handle_score [OF assms(1)] assms(2)
  by (cases ev) (auto simp: scoreMatches_def split: if_splits)

lemma run_scoreMatches:
  "run g rs evs = Inr (g', rs') \<Longrightarrow> scoreMatches g \<Longrightarrow> scoreMatches g'"
proof (induction evs arbitrary: g rs)
  case Nil
  then show ?case by simp
next
  case (Cons ev evs)
  from Cons.prems(1) obtain g1 rs1 where
    h: "handle g rs ev = Inr (g1, rs1)" and r: "run g1 rs1 evs = Inr (g', rs')"
    by (auto simp: andThen_Inr_iff)
  from handle_scoreMatches [OF h Cons.prems(2)] Cons.IH [OF r] show ?case by simp
qed

lemma started_scoreMatches:
  assumes "started g0 rs evs = Inr (g, rs')"
  shows "scoreMatches g"
proof -
  from assms obtain g1 rs1 where
    r: "reset g0 rs = Inr (g1, rs1)" and e: "run g1 rs1 evs = Inr (g, rs')"
    by (auto simp: started_def andThen_Inr_iff)
  from reset_score [OF r] have "scoreMatches g1" by (simp add: scoreMatches_def)
  with e show ?thesis by (rule run_scoreMatches)
qed

section \<open>The interval timer\<close>

lemma oneTimer_cong:
  "tickInterval g' = tickInterval g \<Longrightarrow> intervals g' = intervals g \<Longrightarrow>
   status g' = status g \<Longrightarrow> oneTimer g' = oneTimer g"
  by (simp add: oneTimer_def split: option.splits)

lemma stop_clears:
  "intervals g = [] \<or> oneTimer g \<Longrightarrow> intervals (stop g) = [] \<and> oneTimer (stop g)"
  by (auto simp: oneTimer_def split: option.splits if_splits)

lemma finish_clears:
  "intervals g = [] \<or> oneTimer g \<Longrightarrow> intervals (finish g) = [] \<and> oneTimer (finish g)"
  by (auto simp: oneTimer_def split: option.splits if_splits)

lemma play_oneTimer:
  "intervals g = [] \<Longrightarrow> oneTimer (play g) \<and> intervals (play g) = [nextInterval g]"
  by (simp add: oneTimer_def)

lemma oneTimer_not_playing:
  "oneTimer g \<Longrightarrow> \<not> isPlaying (status g) \<Longrightarrow> intervals g = []"
  by (auto simp: oneTimer_def split: option.splits)

text \<open>
  \<^verbatim>\<open>play()\<close> itself does not look at the status or at \<^verbatim>\<open>tickInterval\<close>; the check
  is in \<^verbatim>\<open>playClickHandler\<close>, its only caller.
\<close>

lemma play_unguarded: "intervals (play g) = intervals g @ [nextInterval g]"
  by simp

lemma oneTimer_length: "oneTimer g \<Longrightarrow> length (intervals g) \<le> 1"
  by (auto simp: oneTimer_def split: option.splits)

lemma stop_stop: "stop (stop g) = stop g"
  by (simp add: stop_def clearInterval_def setPlayButton_def setStopped_def Let_def
      split: option.splits)

lemma tickHandler_oneTimer:
  assumes "tickHandler g rs = Inr (g', rs')" and "oneTimer g"
  shows "oneTimer g'"
  using assms(1)
proof (cases rule: tickHandler_Inr_cases)
  case collide
  then show ?thesis using assms(2) finish_clears by simp
next
  case (move p)
  then have "oneTimer g' = oneTimer g" by (intro oneTimer_cong) simp_all
  then show ?thesis using assms(2) by simp
next
  case (eat p q)
  have "oneTimer (fed g q) = oneTimer g" by (intro oneTimer_cong) (simp_all add: fed_def)
  then have f: "oneTimer (fed g q)" using assms(2) by simp
  then have ff: "oneTimer (finish (fed g q))" using finish_clears by simp
  have "oneTimer g' = oneTimer (if isGameWon (fed g q) then finish (fed g q) else fed g q)"
    unfolding eat(2) by (intro oneTimer_cong) simp_all
  with f ff show ?thesis by simp
qed

lemma playClickHandler_oneTimer: "oneTimer g \<Longrightarrow> oneTimer (playClickHandler g)"
  using stop_clears [of g] play_oneTimer [of g] oneTimer_not_playing [of g]
  by (auto simp: playClickHandler_def isPlaying_def isStopped_def)

lemma reset_oneTimer:
  assumes "reset g rs = Inr (g', rs')" and "intervals g = [] \<or> oneTimer g"
  shows "oneTimer g' \<and> intervals g' = []"
proof -
  from assms(1) obtain q where
    "g' = (stop g)\<lparr>score := score_drop (score g),
                  snake := snake_init (getStartSnakeBody g) ''up''
                             (colsCount (config g) - 1) (rowsCount (config g) - 1),
                  food := setCoordinates (food g) q\<rparr>"
    by (rule reset_Inr)
  then have e: "intervals g' = intervals (stop g)" "tickInterval g' = tickInterval (stop g)"
    "status g' = status (stop g)" by simp_all
  then have "oneTimer g' = oneTimer (stop g)" by (intro oneTimer_cong)
  with stop_clears [OF assms(2)] e(1) show ?thesis by simp
qed

lemma handle_oneTimer:
  assumes "handle g rs ev = Inr (g', rs')" and "oneTimer g"
  shows "oneTimer g'"
proof (cases ev)
  case PlayClick
  then show ?thesis using assms playClickHandler_oneTimer by (auto simp: handle_def)
next
  case NewGameClick
  then show ?thesis using assms reset_oneTimer [of g rs g' rs']
    by (simp add: handle_def newGameClickHandler_def)
next
  case (KeyDown code)
  then have "g' = keyDownHandler g code" using assms(1) by (simp add: handle_def)
  then have "oneTimer g' = oneTimer g" by (intro oneTimer_cong) simp_all
  then show ?thesis using assms(2) by simp
next
  case Tick
  then show ?thesis using assms tickHandler_oneTimer [of g rs g' rs']
    by (auto simp: handle_def split: if_splits)
qed

lemma run_oneTimer:
  "run g rs evs = Inr (g', rs') \<Longrightarrow> oneTimer g \<Longrightarrow> oneTimer g'"
proof (induction evs arbitrary: g rs)
  case Nil
  then show ?case by simp
next
  case (Cons ev evs)
  from Cons.prems(1) obtain g1 rs1 where
    h: "handle g rs ev = Inr (g1, rs1)" and r: "run g1 rs1 evs = Inr (g', rs')"
    by (auto simp: andThen_Inr_iff)
  from handle_oneTimer [OF h Cons.prems(2)] Cons.IH [OF r] show ?case by simp
qed

lemma oneTimer_playing:
  "oneTimer g \<Longrightarrow> isPlaying (status g) \<Longrightarrow> \<exists>i. tickInterval g = Some i \<and> intervals g = [i]"
  by (auto simp: oneTimer_def split: option.splits)

lemma started_oneTimer:
  assumes "intervals g0 = []" and "started g0 rs evs = Inr (g, rs')"
  shows "oneTimer g"
proof -
  from assms(2) obtain g1 rs1 where
    r: "reset g0 rs = Inr (g1, rs1)" and e: "run g1 rs1 evs = Inr (g, rs')"
    by (auto simp: started_def andThen_Inr_iff)
  from reset_oneTimer [OF r] assms(1) have "oneTimer g1" by simp
  with e show ?thesis by (rule run_oneTimer)
qed

section \<open>No handler throws in a started game\<close>

lemma wellFormed_next:
  assumes "wellFormed g"
  shows "\<exists>p. getNextStepHeadPoint (snake g) = Inr (Some p)"
proof -
  from assms obtain h rest where "body (snake g) = h # rest"
    by (cases "body (snake g)") (auto simp: wellFormed_def)
  with assms show ?thesis
    by (cases h) (auto simp: wellFormed_def getNextStepHeadPoint_def)
qed

lemma wellFormed_cong:
  "body (snake g') \<noteq> [] \<Longrightarrow> direction (snake g') = direction (snake g) \<Longrightarrow>
   wellFormed g \<Longrightarrow> wellFormed g'"
  by (simp add: wellFormed_def)

lemma tickHandler_wellFormed:
  assumes "wellFormed g"
  shows "case tickHandler g rs of Inl e \<Rightarrow> e = NoReturn | Inr (g', rs') \<Rightarrow> wellFormed g'"
proof (cases "tickHandler g rs")
  case (Inl e)
  from wellFormed_next [OF assms] obtain p where
    p: "getNextStepHeadPoint (snake g) = Inr (Some p)" by blast
  have "e = NoReturn"
  proof (cases "p \<in> set (body (snake g))")
    case True
    with Inl tickHandler_collide [OF p True, of rs] show ?thesis by simp
  next
    case False
    show ?thesis
    proof (cases "food_x (food g) = Some (fst p) \<and> food_y (food g) = Some (snd p)")
      case True
      from Inl have "getRandomFreeCoordinates g rs = Inl e"
        unfolding tickHandler_eat [OF p False True]
        by (cases "getRandomFreeCoordinates g rs") (auto simp: Let_def)
      then show ?thesis unfolding getRandomFreeCoordinates_def by (rule randomFree_Inl)
    next
      case nf: False
      with Inl tickHandler_move [OF p False nf, of rs] show ?thesis by simp
    qed
  qed
  with Inl show ?thesis by simp
next
  case (Inr v)
  obtain g' rs' where v: "v = (g', rs')" by (cases v)
  from Inr v have t: "tickHandler g rs = Inr (g', rs')" by simp
  from t have "wellFormed g'"
  proof (cases rule: tickHandler_Inr_cases)
    case collide
    with assms show ?thesis by (simp add: wellFormed_def)
  next
    case (move p)
    with assms show ?thesis by (simp add: wellFormed_def)
  next
    case (eat p q)
    with assms show ?thesis by (simp add: wellFormed_def fed_def)
  qed
  with Inr v show ?thesis by simp
qed

lemma reset_wellFormed:
  "case reset g rs of Inl e \<Rightarrow> e = NoReturn | Inr (g', rs') \<Rightarrow> wellFormed g'"
proof (cases "reset g rs")
  case (Inl e)
  then show ?thesis
    by (auto simp: reset_def Let_def getRandomFreeCoordinates_def andThen_def
        split: sum.splits dest: randomFree_Inl)
next
  case (Inr v)
  obtain g' rs' where v: "v = (g', rs')" by (cases v)
  from Inr v have "reset g rs = Inr (g', rs')" by simp
  then have "wellFormed g'"
    by (rule reset_Inr) (simp add: wellFormed_def snake_init_def getStartSnakeBody_def)
  with Inr v show ?thesis by simp
qed

lemma keyDownHandler_wellFormed:
  "wellFormed g \<Longrightarrow> wellFormed (keyDownHandler g code)"
  by (auto simp: wellFormed_def keyDownHandler_def setDirection_def canSetDirection_def Let_def)

lemma handle_wellFormed:
  assumes "wellFormed g"
  shows "case handle g rs ev of Inl e \<Rightarrow> e = NoReturn | Inr (g', rs') \<Rightarrow> wellFormed g'"
proof (cases ev)
  case PlayClick
  have "wellFormed (playClickHandler g)"
    using assms by (simp add: wellFormed_def)
  with PlayClick show ?thesis by (simp add: handle_def)
next
  case NewGameClick
  with reset_wellFormed [of g rs] show ?thesis by (simp add: handle_def newGameClickHandler_def)
next
  case (KeyDown code)
  with keyDownHandler_wellFormed [OF assms] show ?thesis by (simp add: handle_def)
next
  case Tick
  with tickHandler_wellFormed [OF assms, of rs] assms show ?thesis by (simp add: handle_def)
qed

lemma run_wellFormed:
  "wellFormed g \<Longrightarrow>
   (case run g rs evs of Inl e \<Rightarrow> e = NoReturn | Inr (g', rs') \<Rightarrow> wellFormed g')"
proof (induction evs arbitrary: g rs)
  case Nil
  then show ?case by simp
next
  case (Cons ev evs)
  show ?case
  proof (cases "handle g rs ev")
    case (Inl e)
    with handle_wellFormed [OF Cons.prems, of rs ev] show ?thesis by simp
  next
    case (Inr v)
    obtain g1 rs1 where v: "v = (g1, rs1)" by (cases v)
    with Inr handle_wellFormed [OF Cons.prems, of rs ev] have "wellFormed g1" by simp
    from Cons.IH [OF this, of rs1] Inr v show ?thesis by simp
  qed
qed

lemma started_never_throws:
  "case started g0 rs evs of Inl e \<Rightarrow> e = NoReturn | Inr (g, rs') \<Rightarrow> wellFormed g"
proof (cases "reset g0 rs")
  case (Inl e)
  with reset_wellFormed [of g0 rs] show ?thesis by (simp add: started_def)
next
  case (Inr v)
  obtain g1 rs1 where v: "v = (g1, rs1)" by (cases v)
  with Inr reset_wellFormed [of g0 rs] have "wellFormed g1" by simp
  from run_wellFormed [OF this, of rs1 evs] Inr v show ?thesis by (simp add: started_def)
qed

section \<open>Runs from the page as loaded\<close>

lemma reset_page: "reset page [10/21, 9/21, 1/7, 4/21] = Inr (fresh, [1/7, 4/21])"
  by (simp add: page_def fresh_def game_defs)

lemma tick_fresh:
  "handle (play fresh) [1/7, 4/21] Tick =
     Inr ((play fresh)\<lparr>snake := (snake fresh)\<lparr>body := [(10, 9), (10, 10)]\<rparr>,
                       score := \<lparr>count = 1\<rparr>,
                       food := \<lparr>food_x = Some 3, food_y = Some 4\<rparr>\<rparr>, [])"
  by (simp add: fresh_def game_defs)

lemma run3:
  "started page [1/7, 4/21] [PlayClick, PlayClick] =
     Inr (stop (play (fresh\<lparr>food := \<lparr>food_x = Some 3, food_y = Some 4\<rparr>\<rparr>)), [])"
  by (simp add: page_def fresh_def game_defs)

lemma run1:
  "started page [10/21, 9/21, 1/7, 4/21] [PlayClick, Tick, Tick] =
     Inr (\<lparr>config = \<lparr>rowsCount = 21, colsCount = 21, speed = 5, winFoodCount = 50\<rparr>,
           snake = \<lparr>body = [(10, 8), (10, 9)], direction = ''up'',
                    lastStepDirection = ''up'', maxX = 20, maxY = 20\<rparr>,
           food = \<lparr>food_x = Some 3, food_y = Some 4\<rparr>,
           status = \<lparr>condition = Some Playing\<rparr>, score = \<lparr>count = 1\<rparr>,
           tickInterval = Some 0, intervals = [0], nextInterval = 1,
           button = \<lparr>textContent = Stop, disabled = False\<rparr>\<rparr>, [])"
  by (simp add: page_def game_defs)

lemma run2:
  "started page [1/7, 4/21]
      [PlayClick, Tick, KeyDown ''ArrowLeft'', Tick, PlayClick, PlayClick, PlayClick, PlayClick] =
     Inr (\<lparr>config = \<lparr>rowsCount = 21, colsCount = 21, speed = 5, winFoodCount = 50\<rparr>,
           snake = \<lparr>body = [(9, 9)], direction = ''left'',
                    lastStepDirection = ''left'', maxX = 20, maxY = 20\<rparr>,
           food = \<lparr>food_x = Some 3, food_y = Some 4\<rparr>,
           status = \<lparr>condition = Some Playing\<rparr>, score = \<lparr>count = 0\<rparr>,
           tickInterval = Some 2, intervals = [2], nextInterval = 3,
           button = \<lparr>textContent = Stop, disabled = False\<rparr>\<rparr>, [])"
  by (simp add: page_def game_defs)

section \<open>Validation of the settings\<close>

lemma validate_errors:
  "errors (validate s) =
     (if rowsCount s < 10 \<or> rowsCount s > 30 then [RowsCountRange] else []) @
     (if colsCount s < 10 \<or> colsCount s > 30 then [ColsCountRange] else []) @
     (if speed s < 1 \<or> speed s > 10 then [SpeedRange] else []) @
     (if winFoodCount s < 5 \<or> winFoodCount s > 50 then [WinLengthRange] else [])"
  by (simp add: validate_def report_def Let_def)

lemma validate_isValid:
  "isValid (validate s) = (errors (validate s) = [])"
  by (simp add: validate_def report_def Let_def)

text \<open>
  Claim C8. \<^verbatim>\<open>validate()\<close> checks the four ranges one after the other and none of
  the checks depends on another: the errors are the messages of the settings out of range,
  in the order rowsCount, colsCount, speed, winFoodCount. A configuration with all four
  settings in range gives
  \<open>isValid = True\<close> and no errors; the message of a setting is in the result exactly when
  this setting is out of its range, and at most once; the number of messages is the number
  of settings out of range; \<open>isValid\<close> holds exactly when there is no message.
\<close>

theorem validate_all_ranges:
  "errors (validate s) =
     (if rowsCount s < 10 \<or> rowsCount s > 30 then [RowsCountRange] else []) @
     (if colsCount s < 10 \<or> colsCount s > 30 then [ColsCountRange] else []) @
     (if speed s < 1 \<or> speed s > 10 then [SpeedRange] else []) @
     (if winFoodCount s < 5 \<or> winFoodCount s > 50 then [WinLengthRange] else []) \<and>
   (10 \<le> rowsCount s \<and> rowsCount s \<le> 30 \<and> 10 \<le> colsCount s \<and> colsCount s \<le> 30 \<and>
    1 \<le> speed s \<and> speed s \<le> 10 \<and> 5 \<le> winFoodCount s \<and> winFoodCount s \<le> 50
      \<longrightarrow> validate s = \<lparr>isValid = True, errors = []\<rparr>) \<and>
   (RowsCountRange \<in> set (errors (validate s)) \<longleftrightarrow> rowsCount s < 10 \<or> rowsCount s > 30) \<and>
   (ColsCountRange \<in> set (errors (validate s)) \<longleftrightarrow> colsCount s < 10 \<or> colsCount s > 30) \<and>
   (SpeedRange \<in> set (errors (validate s)) \<longleftrightarrow> speed s < 1 \<or> speed s > 10) \<and>
   (WinLengthRange \<in> set (errors (validate s)) \<longleftrightarrow> winFoodCount s < 5 \<or> winFoodCount s > 50) \<and>
   distinct (errors (validate s)) \<and>
   length (errors (validate s)) =
     (if rowsCount s < 10 \<or> rowsCount s > 30 then 1 else 0) +
     (if colsCount s < 10 \<or> colsCount s > 30 then 1 else 0) +
     (if speed s < 1 \<or> speed s > 10 then 1 else 0) +
     (if winFoodCount s < 5 \<or> winFoodCount s > 50 then 1 else 0) \<and>
   isValid (validate s) = (errors (validate s) = [])"
  unfolding validate_isValid validate_errors by (auto simp: validate_def)

text \<open>The default settings are valid; \<open>rowsCount = 5\<close> with \<open>speed = 20\<close> gives two errors.\<close>

theorem validate_all_ranges_witness:
  "validate default_settings = \<lparr>isValid = True, errors = []\<rparr> \<and>
   errors (validate (default_settings\<lparr>rowsCount := 5, speed := 20\<rparr>)) = [RowsCountRange, SpeedRange] \<and>
   length (errors (validate (default_settings\<lparr>rowsCount := 5, speed := 20\<rparr>))) = 2 \<and>
   \<not> isValid (validate (default_settings\<lparr>rowsCount := 5, speed := 20\<rparr>))"
  using validate_all_ranges [of default_settings]
    validate_all_ranges [of "default_settings\<lparr>rowsCount := 5, speed := 20\<rparr>"]
  by (simp add: default_settings_def validate_def report_def)

section \<open>Changing the direction\<close>

text \<open>
  Claim C7. Whatever \<^verbatim>\<open>lastStepDirection\<close> is, \<^verbatim>\<open>canSetDirection(d)\<close> for
  \<open>d\<close> one of up, right, down, left is false exactly when \<open>d\<close> is the reversal of
  \<^verbatim>\<open>lastStepDirection\<close>; after a step up, down is refused and up, left and right are
  allowed.
\<close>

theorem canSetDirection_reversal:
  "canSetDirection g ''up'' = (lastStepDirection (snake g) \<noteq> ''down'') \<and>
   canSetDirection g ''down'' = (lastStepDirection (snake g) \<noteq> ''up'') \<and>
   canSetDirection g ''left'' = (lastStepDirection (snake g) \<noteq> ''right'') \<and>
   canSetDirection g ''right'' = (lastStepDirection (snake g) \<noteq> ''left'') \<and>
   (lastStepDirection (snake g) = ''up'' \<longrightarrow>
      \<not> canSetDirection g ''down'' \<and> canSetDirection g ''up'' \<and>
      canSetDirection g ''left'' \<and> canSetDirection g ''right'')"
  by (simp add: canSetDirection_def getLastStepDirection_def)

theorem canSetDirection_reversal_witness:
  "\<not> canSetDirection (playing_game default_settings [(10, 10)] ''up'' (3, 3)) ''down'' \<and>
   canSetDirection (playing_game default_settings [(10, 10)] ''up'' (3, 3)) ''up'' \<and>
   canSetDirection (playing_game default_settings [(10, 10)] ''up'' (3, 3)) ''left'' \<and>
   canSetDirection (playing_game default_settings [(10, 10)] ''up'' (3, 3)) ''right''"
  using canSetDirection_reversal [of "playing_game default_settings [(10, 10)] ''up'' (3, 3)"]
  by (simp add: playing_game_def)

section \<open>The next head point\<close>

text \<open>
  Claim C5. For a head \<open>(hx, hy)\<close> within the bounds \<open>0..maxX\<close>, \<open>0..maxY\<close> the next
  head point wraps on both axes: right of \<open>maxX\<close> is 0, left of 0 is \<open>maxX\<close>, above 0 is
  \<open>maxY\<close>, below \<open>maxY\<close> is 0; elsewhere the moved coordinate changes by one. The other
  coordinate stays. So the moved coordinate is \<open>hx + 1\<close> or \<open>hx - 1\<close> modulo
  \<open>maxX + 1\<close>, and likewise for \<open>hy\<close>.
\<close>

theorem getNextStepHeadPoint_wraps:
  assumes "body s = (hx, hy) # rest"
    and "0 \<le> hx" and "hx \<le> maxX s" and "0 \<le> hy" and "hy \<le> maxY s"
  shows
   "(direction s = ''right'' \<longrightarrow>
       getNextStepHeadPoint s = Inr (Some (if hx = maxX s then 0 else hx + 1, hy)) \<and>
       getNextStepHeadPoint s = Inr (Some ((hx + 1) mod (maxX s + 1), hy))) \<and>
    (direction s = ''left'' \<longrightarrow>
       getNextStepHeadPoint s = Inr (Some (if hx = 0 then maxX s else hx - 1, hy)) \<and>
       getNextStepHeadPoint s = Inr (Some ((hx - 1) mod (maxX s + 1), hy))) \<and>
    (direction s = ''up'' \<longrightarrow>
       getNextStepHeadPoint s = Inr (Some (hx, if hy = 0 then maxY s else hy - 1)) \<and>
       getNextStepHeadPoint s = Inr (Some (hx, (hy - 1) mod (maxY s + 1)))) \<and>
    (direction s = ''down'' \<longrightarrow>
       getNextStepHeadPoint s = Inr (Some (hx, if hy = maxY s then 0 else hy + 1)) \<and>
       getNextStepHeadPoint s = Inr (Some (hx, (hy + 1) mod (maxY s + 1))))"
proof -
  have r: "(hx + 1) mod (maxX s + 1) = (if hx = maxX s then 0 else hx + 1)"
    using assms by simp
  have l: "(hx - 1) mod (maxX s + 1) = (if hx = 0 then maxX s else hx - 1)"
    using assms by (simp add: zmod_minus1)
  have u: "(hy - 1) mod (maxY s + 1) = (if hy = 0 then maxY s else hy - 1)"
    using assms by (simp add: zmod_minus1)
  have d: "(hy + 1) mod (maxY s + 1) = (if hy = maxY s then 0 else hy + 1)"
    using assms by simp
  show ?thesis
    unfolding r l u d using assms(1) by (simp add: getNextStepHeadPoint_def)
qed

theorem getNextStepHeadPoint_wraps_witness:
  "getNextStepHeadPoint (snake (playing_game default_settings [(20, 0)] ''right'' (3, 3)))
     = Inr (Some (0, 0)) \<and>
   getNextStepHeadPoint (snake (playing_game default_settings [(20, 0)] ''up'' (3, 3)))
     = Inr (Some (20, 20)) \<and>
   getNextStepHeadPoint (snake (playing_game default_settings [(0, 20)] ''left'' (3, 3)))
     = Inr (Some (20, 20)) \<and>
   getNextStepHeadPoint (snake (playing_game default_settings [(0, 20)] ''down'' (3, 3)))
     = Inr (Some (0, 0)) \<and>
   getNextStepHeadPoint (snake (playing_game default_settings [(7, 8)] ''down'' (3, 3)))
     = Inr (Some (7, 9))"
  using
    getNextStepHeadPoint_wraps [of "snake (playing_game default_settings [(20, 0)] ''right'' (3, 3))" 20 0 "[]"]
    getNextStepHeadPoint_wraps [of "snake (playing_game default_settings [(20, 0)] ''up'' (3, 3))" 20 0 "[]"]
    getNextStepHeadPoint_wraps [of "snake (playing_game default_settings [(0, 20)] ''left'' (3, 3))" 0 20 "[]"]
    getNextStepHeadPoint_wraps [of "snake (playing_game default_settings [(0, 20)] ''down'' (3, 3))" 0 20 "[]"]
    getNextStepHeadPoint_wraps [of "snake (playing_game default_settings [(7, 8)] ''down'' (3, 3))" 7 8 "[]"]
  by (simp add: playing_game_def default_settings_def)

section \<open>Placing the food\<close>

text \<open>
  Claim C9. Whenever \<^verbatim>\<open>getRandomFreeCoordinates\<close> returns a point, for any body, any
  food and any draws, this point is not a point of the snake's body:
  \<^verbatim>\<open>snake.isOnPoint\<close> is false on it.
\<close>

theorem getRandomFreeCoordinates_not_on_body:
  "getRandomFreeCoordinates g rs = Inr (p, rs') \<Longrightarrow>
     p \<notin> set (body (snake g)) \<and> snake_isOnPoint (snake g) (Some p) = Inr False"
  using getRandomFreeCoordinates_free(1) [of g rs p rs'] by simp

text \<open>
  The first three rounds draw a point of the body, the food and the head and are rejected;
  the fourth draws \<open>(10, 0)\<close>, which is returned with the unused draws.
\<close>

theorem getRandomFreeCoordinates_not_on_body_witness:
  "getRandomFreeCoordinates
      (playing_game default_settings [(10, 10), (10, 11), (11, 11)] ''up'' (3, 3))
      [11/21, 11/21, 3/21, 3/21, 10/21, 10/21, 1/2, 0, 2/3, 2/3] = Inr ((10, 0), [2/3, 2/3]) \<and>
   (10, 0) \<notin> set (body (snake (playing_game default_settings [(10, 10), (10, 11), (11, 11)] ''up'' (3, 3))))"
proof -
  have r: "getRandomFreeCoordinates
      (playing_game default_settings [(10, 10), (10, 11), (11, 11)] ''up'' (3, 3))
      [11/21, 11/21, 3/21, 3/21, 10/21, 10/21, 1/2, 0, 2/3, 2/3] = Inr ((10, 0), [2/3, 2/3])"
    by (simp add: getRandomFreeCoordinates_def exclude_def getCoordinates_def getBody_def
        playing_game_def default_settings_def)
  from getRandomFreeCoordinates_not_on_body [OF r] r show ?thesis by simp
qed

text \<open>
  Claim C1, as the code has it. In a tick that eats, \<^verbatim>\<open>getRandomFreeCoordinates\<close> is
  called in the state \<open>grown g\<close>, and its list \<^verbatim>\<open>exclude\<close> holds the points of the
  grown body and the coordinates of the food just eaten, which is the next head point \<open>p\<close>
  and is not on the body. The tick returns exactly when the placement returns; the new food
  is the point placed, it is not on the grown body and it is not \<open>p\<close>, and it is a cell
  of the grid when the draws are in \<open>[0, 1)\<close> and the grid is not empty. Every cell of the
  grid that is neither on the grown body nor \<open>p\<close> is the new food for some draws in
  \<open>[0, 1)\<close>.
\<close>

theorem tickHandler_food_placement:
  assumes "getNextStepHeadPoint (snake g) = Inr (Some p)"
    and "p \<notin> set (body (snake g))"
    and "food_x (food g) = Some (fst p) \<and> food_y (food g) = Some (snd p)"
  shows "set (exclude (grown g)) =
           insert (Some (fst p), Some (snd p))
             ((\<lambda>c. (Some (fst c), Some (snd c))) ` set (body (snake (grown g)))) \<and>
         (\<forall>rs. case tickHandler g rs of
                  Inl e \<Rightarrow> getRandomFreeCoordinates (grown g) rs = Inl e
                | Inr (g', rs') \<Rightarrow>
                    \<exists>q. getRandomFreeCoordinates (grown g) rs = Inr (q, rs') \<and>
                        food g' = \<lparr>food_x = Some (fst q), food_y = Some (snd q)\<rparr> \<and>
                        q \<notin> set (body (snake (grown g))) \<and> q \<noteq> p \<and>
                        ((\<forall>r\<in>set rs. 0 \<le> r \<and> r < 1) \<and> 0 < colsCount (config g) \<and>
                         0 < rowsCount (config g) \<longrightarrow> inGrid g q)) \<and>
         (\<forall>c. inGrid g c \<and> c \<notin> set (body (snake (grown g))) \<and> c \<noteq> p \<longrightarrow>
              (\<exists>rs g'. (\<forall>r\<in>set rs. 0 \<le> r \<and> r < 1) \<and>
                 tickHandler g rs = Inr (g', []) \<and>
                 food g' = \<lparr>food_x = Some (fst c), food_y = Some (snd c)\<rparr>))"
proof (intro conjI allI impI)
  show "set (exclude (grown g)) =
           insert (Some (fst p), Some (snd p))
             ((\<lambda>c. (Some (fst c), Some (snd c))) ` set (body (snake (grown g))))"
    using assms(3) by (rule exclude_grown)
next
  fix rs
  show "case tickHandler g rs of
                  Inl e \<Rightarrow> getRandomFreeCoordinates (grown g) rs = Inl e
                | Inr (g', rs') \<Rightarrow>
                    \<exists>q. getRandomFreeCoordinates (grown g) rs = Inr (q, rs') \<and>
                        food g' = \<lparr>food_x = Some (fst q), food_y = Some (snd q)\<rparr> \<and>
                        q \<notin> set (body (snake (grown g))) \<and> q \<noteq> p \<and>
                        ((\<forall>r\<in>set rs. 0 \<le> r \<and> r < 1) \<and> 0 < colsCount (config g) \<and>
                         0 < rowsCount (config g) \<longrightarrow> inGrid g q)"
  proof (cases "tickHandler g rs")
    case (Inl e)
    with tickHandler_eat_placement [OF assms, of rs] show ?thesis by simp
  next
    case (Inr v)
    obtain g' rs' where v: "v = (g', rs')" by (cases v)
    from tickHandler_eat_placement [OF assms, of rs] Inr v
    obtain q where q: "getRandomFreeCoordinates (grown g) rs = Inr (q, rs')"
      "food g' = \<lparr>food_x = Some (fst q), food_y = Some (snd q)\<rparr>" by auto
    have nb: "q \<notin> set (body (snake (grown g)))"
      using getRandomFreeCoordinates_free(1) [OF q(1)] .
    have "\<not> (food_x (food (grown g)) = Some (fst q) \<and> food_y (food (grown g)) = Some (snd q))"
      using getRandomFreeCoordinates_free(2) [OF q(1)] .
    with assms(3) have np: "q \<noteq> p" by auto
    have grid: "inGrid g q"
      if "(\<forall>r\<in>set rs. 0 \<le> r \<and> r < 1) \<and> 0 < colsCount (config g) \<and> 0 < rowsCount (config g)"
      using randomFree_in_grid [OF q(1) [unfolded getRandomFreeCoordinates_def]] that
      by (simp add: inGrid_def)
    show ?thesis using Inr v q nb np grid by simp
  qed
next
  fix c
  assume c: "inGrid g c \<and> c \<notin> set (body (snake (grown g))) \<and> c \<noteq> p"
  have ne: "body (snake g) \<noteq> []" using assms(1) by (rule getNextStepHeadPoint_body)
  let ?rs = "[of_int (fst c) / of_int (colsCount (config g)),
              of_int (snd c) / of_int (rowsCount (config g)) :: real]"
  from c have cb: "c \<notin> set (body (snake g))" by simp
  from c assms(3) have cf: "\<not> (food_x (food g) = Some (fst c) \<and> food_y (food g) = Some (snd c))"
    by (auto simp: prod_eq_iff)
  from c have hit: "getRandomFreeCoordinates g ?rs = Inr (c, [])"
    using placement_hit [OF _ cb cf] by simp
  have unit: "\<forall>r\<in>set ?rs. 0 \<le> r \<and> r < 1"
    using c draw_in_unit [of "fst c" "colsCount (config g)"]
      draw_in_unit [of "snd c" "rowsCount (config g)"]
    by (simp add: inGrid_def)
  have "\<exists>g'. tickHandler g ?rs = Inr (g', []) \<and>
          food g' = \<lparr>food_x = Some (fst c), food_y = Some (snd c)\<rparr>"
    unfolding tickHandler_eat_Inr [OF assms hit]
    by (simp add: fed_def setCoordinates_def)
  with unit show "\<exists>rs g'. (\<forall>r\<in>set rs. 0 \<le> r \<and> r < 1) \<and>
                 tickHandler g rs = Inr (g', []) \<and>
                 food g' = \<lparr>food_x = Some (fst c), food_y = Some (snd c)\<rparr>"
    by blast
qed

theorem tickHandler_food_placement_witness:
  "set (exclude (grown before_meal)) = {(Some 10, Some 9), (Some 10, Some 10)} \<and>
   (\<exists>rs g'. (\<forall>r\<in>set rs. 0 \<le> r \<and> r < 1) \<and>
       tickHandler before_meal rs = Inr (g', []) \<and>
       food g' = \<lparr>food_x = Some 3, food_y = Some 4\<rparr>)"
proof -
  have "inGrid before_meal (3, 4) \<and> (3, 4) \<notin> set (body (snake (grown before_meal))) \<and>
        (3::int, 4::int) \<noteq> (10, 9)"
    by (simp add: inGrid_def before_meal_def playing_game_def default_settings_def)
  with tickHandler_food_placement [OF before_meal_next before_meal_free before_meal_food]
  show ?thesis
    by (auto simp: before_meal_def playing_game_def)
qed

text \<open>
  Against claim C1 as stated (the exclude set is exactly the grown body): the snake
  \<open>[(10, 10)]\<close> moves up onto the food at \<open>(10, 9)\<close>. The cell \<open>(10, 9)\<close> is in the grid
  and not on the grown body, yet it is in \<^verbatim>\<open>exclude\<close>: the draws for \<open>(10, 9)\<close> are
  rejected, and the tick places the food on the next draws, at \<open>(3, 4)\<close>.
\<close>

theorem tickHandler_food_placement_counterexample:
  "inGrid before_meal (10, 9) \<and>
   (10, 9) \<notin> set (body (snake (grown before_meal))) \<and>
   (Some 10, Some 9) \<in> set (exclude (grown before_meal)) \<and>
   getRandomFreeCoordinates (grown before_meal) [10/21, 9/21] = Inl NoReturn \<and>
   tickHandler before_meal [10/21, 9/21] = Inl NoReturn \<and>
   tickHandler before_meal [10/21, 9/21, 1/7, 4/21] =
     Inr (\<lparr>config = default_settings,
           snake = \<lparr>body = [(10, 9), (10, 10)], direction = ''up'',
                    lastStepDirection = ''up'', maxX = 20, maxY = 20\<rparr>,
           food = \<lparr>food_x = Some 3, food_y = Some 4\<rparr>,
           status = \<lparr>condition = Some Playing\<rparr>, score = \<lparr>count = 1\<rparr>,
           tickInterval = Some 0, intervals = [0], nextInterval = 1,
           button = \<lparr>textContent = Stop, disabled = False\<rparr>\<rparr>, [])"
  by (simp add: inGrid_def before_meal_def playing_game_def grown_def game_defs)

section \<open>The tick\<close>

text \<open>
  Claim C3. When the next head point is a point of the body, \<^verbatim>\<open>tickHandler\<close> returns
  what \<^verbatim>\<open>finish()\<close> returns and uses no random value: snake (body, direction and
  last direction), food, score and settings are those before the tick and the status is
  finished.
\<close>

theorem tickHandler_self_collision:
  assumes "getNextStepHeadPoint (snake g) = Inr (Some p)"
    and "p \<in> set (body (snake g))"
  shows "tickHandler g rs = Inr (finish g, rs) \<and>
         snake (finish g) = snake g \<and>
         food (finish g) = food g \<and>
         score (finish g) = score g \<and>
         config (finish g) = config g \<and>
         condition (status (finish g)) = Some Finished"
  using tickHandler_collide [OF assms] by (simp add: setFinished_def)

theorem tickHandler_self_collision_witness:
  "getNextStepHeadPoint (snake (playing_game default_settings [(5, 5), (5, 4), (6, 4), (6, 5)] ''right'' (3, 3)))
     = Inr (Some (6, 5)) \<and>
   (6, 5) \<in> set (body (snake (playing_game default_settings [(5, 5), (5, 4), (6, 4), (6, 5)] ''right'' (3, 3)))) \<and>
   tickHandler (playing_game default_settings [(5, 5), (5, 4), (6, 4), (6, 5)] ''right'' (3, 3)) [] =
     Inr (\<lparr>config = default_settings,
           snake = \<lparr>body = [(5, 5), (5, 4), (6, 4), (6, 5)], direction = ''right'',
                    lastStepDirection = ''right'', maxX = 20, maxY = 20\<rparr>,
           food = \<lparr>food_x = Some 3, food_y = Some 3\<rparr>,
           status = \<lparr>condition = Some Finished\<rparr>,
           score = \<lparr>count = 3\<rparr>,
           tickInterval = Some 0, intervals = [], nextInterval = 1,
           button = \<lparr>textContent = GameOver, disabled = True\<rparr>\<rparr>, [])"
proof -
  have n: "getNextStepHeadPoint (snake (playing_game default_settings [(5, 5), (5, 4), (6, 4), (6, 5)] ''right'' (3, 3)))
     = Inr (Some (6, 5))"
    by (simp add: playing_game_def default_settings_def getNextStepHeadPoint_def)
  have m: "(6, 5) \<in> set (body (snake (playing_game default_settings [(5, 5), (5, 4), (6, 4), (6, 5)] ''right'' (3, 3))))"
    by (simp add: playing_game_def)
  show ?thesis
    using tickHandler_self_collision [OF n m, of "[]"] n m
    by (simp add: playing_game_def default_settings_def finish_def clearInterval_def
        setPlayButton_def setFinished_def)
qed

text \<open>
  Claim C6. A snake of length one at \<open>h\<close> whose next head point \<open>p\<close> holds the food
  (so \<open>p\<close> is not \<open>h\<close>): whenever the placement of the new food returns, one tick returns
  with the body \<open>[p, h]\<close> of length two, the head on the former food cell, and the score
  one higher. The clone pushed by \<^verbatim>\<open>growUp()\<close> is the segment that stays on \<open>h\<close>
  when \<^verbatim>\<open>makeStep()\<close> moves the head in the same tick.
\<close>

theorem tickHandler_growth_timing:
  assumes "body (snake g) = [h]"
    and "getNextStepHeadPoint (snake g) = Inr (Some p)"
    and "food_x (food g) = Some (fst p) \<and> food_y (food g) = Some (snd p)"
    and "p \<noteq> h"
    and "getRandomFreeCoordinates g rs = Inr (q, rs')"
  shows "\<exists>g'. tickHandler g rs = Inr (g', rs') \<and>
           body (snake g') = [p, h] \<and>
           length (body (snake g')) = 2 \<and>
           count (score g') = count (score g) + 1 \<and>
           food g' = \<lparr>food_x = Some (fst q), food_y = Some (snd q)\<rparr>"
proof -
  have free: "p \<notin> set (body (snake g))" using assms(1,4) by simp
  show ?thesis
    unfolding tickHandler_eat_Inr [OF assms(2) free assms(3,5)]
    using assms(1) by (simp add: fed_def increment_def setCoordinates_def)
qed

theorem tickHandler_growth_timing_witness:
  "body (snake (playing_game default_settings [(10, 10)] ''up'' (10, 9))) = [(10, 10)] \<and>
   count (score (playing_game default_settings [(10, 10)] ''up'' (10, 9))) = 0 \<and>
   (\<exists>g'. tickHandler (playing_game default_settings [(10, 10)] ''up'' (10, 9)) [1/7, 4/21] = Inr (g', []) \<and>
      body (snake g') = [(10, 9), (10, 10)] \<and>
      count (score g') = 1 \<and>
      food g' = \<lparr>food_x = Some 3, food_y = Some 4\<rparr>)"
proof -
  let ?g = "playing_game default_settings [(10, 10)] ''up'' (10, 9)"
  have b: "body (snake ?g) = [(10, 10)]" by (simp add: playing_game_def)
  have n: "getNextStepHeadPoint (snake ?g) = Inr (Some (10, 9))"
    by (simp add: playing_game_def getNextStepHeadPoint_def)
  have f: "food_x (food ?g) = Some (fst (10, 9)) \<and> food_y (food ?g) = Some (snd (10::int, 9::int))"
    by (simp add: playing_game_def)
  have d: "(10::int, 9::int) \<noteq> (10, 10)" by simp
  have r: "getRandomFreeCoordinates ?g [1/7, 4/21] = Inr ((3, 4), [])"
    by (simp add: getRandomFreeCoordinates_def exclude_def getCoordinates_def getBody_def
        playing_game_def default_settings_def)
  have c: "count (score ?g) = 0" by (simp add: playing_game_def)
  from tickHandler_growth_timing [OF b n f d r] b c show ?thesis by auto
qed

text \<open>
  Claim C2. In a tick that eats, the body is one longer afterwards, and the status is
  finished if this length is greater than \<^verbatim>\<open>winFoodCount\<close> and unchanged otherwise;
  so a game not finished before becomes finished exactly when the new length is greater
  than \<^verbatim>\<open>winFoodCount\<close>. A tick that moves without eating leaves the status as it is,
  whatever the length.
\<close>

theorem tickHandler_win_check:
  assumes "tickHandler g rs = Inr (g', rs')"
  shows "(eats g \<longrightarrow>
            length (body (snake g')) = length (body (snake g)) + 1 \<and>
            condition (status g') =
              (if int (length (body (snake g'))) > winFoodCount (config g) then Some Finished
               else condition (status g)) \<and>
            (condition (status g) \<noteq> Some Finished \<longrightarrow>
               (condition (status g') = Some Finished \<longleftrightarrow>
                  int (length (body (snake g'))) > winFoodCount (config g)))) \<and>
         (\<not> eats g \<and> canMakeStep g = Inr True \<longrightarrow>
            status g' = status g \<and> length (body (snake g')) = length (body (snake g)))"
proof (intro conjI impI)
  assume e: "eats g"
  then obtain p where p: "getNextStepHeadPoint (snake g) = Inr (Some p)"
    "p \<notin> set (body (snake g))"
    "food_x (food g) = Some (fst p) \<and> food_y (food g) = Some (snd p)"
    by (rule eatsD)
  from assms obtain q where q: "getRandomFreeCoordinates g rs = Inr (q, rs')"
    unfolding tickHandler_eat [OF p] by (auto simp: andThen_Inr_iff Let_def)
  have g': "g' = (if isGameWon (fed g q) then finish (fed g q) else fed g q)
            \<lparr>snake := (snake g)\<lparr>lastStepDirection := direction (snake g),
                                 body := p # body (snake g)\<rparr>\<rparr>"
    using assms unfolding tickHandler_eat_Inr [OF p q] by simp
  show len: "length (body (snake g')) = length (body (snake g)) + 1"
    by (simp add: g')
  show st: "condition (status g') =
      (if int (length (body (snake g'))) > winFoodCount (config g) then Some Finished
       else condition (status g))"
    unfolding len by (simp add: g' isGameWon_fed setFinished_def) (simp add: fed_def)
  show "condition (status g') = Some Finished \<longleftrightarrow>
          int (length (body (snake g'))) > winFoodCount (config g)"
    if "condition (status g) \<noteq> Some Finished"
    using that unfolding st by simp
next
  assume a: "\<not> eats g \<and> canMakeStep g = Inr True"
  from assms obtain p where p: "getNextStepHeadPoint (snake g) = Inr (Some p)"
    using tickHandler_Inr_next by blast
  with a have free: "p \<notin> set (body (snake g))" by (simp add: canMakeStep_Some)
  with a p have nf: "\<not> (food_x (food g) = Some (fst p) \<and> food_y (food g) = Some (snd p))"
    by (auto simp: eats_def)
  have ne: "body (snake g) \<noteq> []" using p by (rule getNextStepHeadPoint_body)
  from assms show "status g' = status g" "length (body (snake g')) = length (body (snake g))"
    unfolding tickHandler_move [OF p free nf] using ne by auto
qed

text \<open>
  With \<^verbatim>\<open>winFoodCount = 5\<close>: growing from five to six finishes the game, growing from
  four to five does not, and a snake of length seven that does not eat keeps playing.
\<close>

theorem tickHandler_win_check_witness:
  "eats (playing_game win5 [(10, 10), (10, 11), (10, 12), (10, 13), (10, 14)] ''up'' (10, 9)) \<and>
   (\<exists>g'. tickHandler (playing_game win5 [(10, 10), (10, 11), (10, 12), (10, 13), (10, 14)] ''up'' (10, 9))
             [1/7, 4/21] = Inr (g', []) \<and>
          length (body (snake g')) = 6 \<and> condition (status g') = Some Finished) \<and>
   eats (playing_game win5 [(10, 10), (10, 11), (10, 12), (10, 13)] ''up'' (10, 9)) \<and>
   (\<exists>g'. tickHandler (playing_game win5 [(10, 10), (10, 11), (10, 12), (10, 13)] ''up'' (10, 9))
             [1/7, 4/21] = Inr (g', []) \<and>
          length (body (snake g')) = 5 \<and> condition (status g') = Some Playing) \<and>
   \<not> eats (playing_game win5 [(10, 10), (10, 11), (10, 12), (10, 13), (10, 14), (10, 15), (10, 16)] ''up'' (3, 4)) \<and>
   (\<exists>g'. tickHandler (playing_game win5 [(10, 10), (10, 11), (10, 12), (10, 13), (10, 14), (10, 15), (10, 16)] ''up'' (3, 4))
             [] = Inr (g', []) \<and>
          length (body (snake g')) = 7 \<and> condition (status g') = Some Playing)"
proof -
  let ?a = "playing_game win5 [(10, 10), (10, 11), (10, 12), (10, 13), (10, 14)] ''up'' (10, 9)"
  let ?b = "playing_game win5 [(10, 10), (10, 11), (10, 12), (10, 13)] ''up'' (10, 9)"
  let ?c = "playing_game win5 [(10, 10), (10, 11), (10, 12), (10, 13), (10, 14), (10, 15), (10, 16)] ''up'' (3, 4)"
  have na: "getNextStepHeadPoint (snake ?a) = Inr (Some (10, 9))"
    and nb: "getNextStepHeadPoint (snake ?b) = Inr (Some (10, 9))"
    and nc: "getNextStepHeadPoint (snake ?c) = Inr (Some (10, 9))"
    by (simp_all add: playing_game_def getNextStepHeadPoint_def)
  have ea: "eats ?a" and eb: "eats ?b" and ec: "\<not> eats ?c"
    by (simp_all add: eats_def na nb nc) (simp_all add: playing_game_def)
  have cc: "canMakeStep ?c = Inr True"
    unfolding canMakeStep_Some [OF nc] by (simp add: playing_game_def)
  have ra: "getRandomFreeCoordinates ?a [1/7, 4/21] = Inr ((3, 4), [])"
    and rb: "getRandomFreeCoordinates ?b [1/7, 4/21] = Inr ((3, 4), [])"
    by (simp_all add: getRandomFreeCoordinates_def exclude_def getCoordinates_def getBody_def
        playing_game_def default_settings_def win5_def)
  obtain ga where ta: "tickHandler ?a [1/7, 4/21] = Inr (ga, [])"
    using tickHandler_eat_Inr [OF na _ _ ra] by (simp add: playing_game_def)
  obtain gb where tb: "tickHandler ?b [1/7, 4/21] = Inr (gb, [])"
    using tickHandler_eat_Inr [OF nb _ _ rb] by (simp add: playing_game_def)
  obtain gc where tc: "tickHandler ?c [] = Inr (gc, [])"
    using tickHandler_move [OF nc, of "[]"] by (simp add: playing_game_def)
  have "length (body (snake ga)) = 6 \<and> condition (status ga) = Some Finished"
    using tickHandler_win_check [OF ta] ea
    by (simp add: playing_game_def win5_def default_settings_def)
  moreover have "length (body (snake gb)) = 5 \<and> condition (status gb) = Some Playing"
    using tickHandler_win_check [OF tb] eb
    by (simp add: playing_game_def win5_def default_settings_def)
  moreover have "length (body (snake gc)) = 7 \<and> condition (status gc) = Some Playing"
    using tickHandler_win_check [OF tc] ec cc
    by (simp add: playing_game_def)
  ultimately show ?thesis using ea eb ec ta tb tc by blast
qed

section \<open>Invariants of a started game\<close>

text \<open>
  Claim C10. In every state that \<^verbatim>\<open>reset()\<close> followed by any events reaches, the
  score is the length of the body minus one. \<^verbatim>\<open>reset()\<close> gives score 0 and length 1;
  a new game click does the same; a tick that eats adds one to both; every other event
  (a tick that does not eat, a play click, a key) changes neither.
\<close>

theorem score_is_length_minus_one:
  "(started g0 rs evs = Inr (g, rs') \<longrightarrow> count (score g) = int (length (body (snake g))) - 1) \<and>
   (reset g0 rs = Inr (g1, rs1) \<longrightarrow> count (score g1) = 0 \<and> length (body (snake g1)) = 1) \<and>
   (handle h r ev = Inr (h', r') \<longrightarrow>
      (case ev of
         NewGameClick \<Rightarrow> count (score h') = 0 \<and> length (body (snake h')) = 1
       | Tick \<Rightarrow>
           if intervals h \<noteq> [] \<and> eats h
           then count (score h') = count (score h) + 1 \<and>
                length (body (snake h')) = length (body (snake h)) + 1
           else count (score h') = count (score h) \<and>
                length (body (snake h')) = length (body (snake h))
       | _ \<Rightarrow> count (score h') = count (score h) \<and>
              length (body (snake h')) = length (body (snake h))))"
  using started_scoreMatches [of g0 rs evs g rs'] reset_score [of g0 rs g1 rs1]
    handle_score [of h r ev h' r']
  by (simp add: scoreMatches_def)

text \<open>
  The first \<^verbatim>\<open>reset()\<close> gives score 0 and length 1; the first tick after a play click
  eats and gives score 1 and length 2; after a second tick the score is still 1 and the
  length 2.
\<close>

theorem score_is_length_minus_one_witness:
  "started page [10/21, 9/21, 1/7, 4/21] [PlayClick, Tick, Tick] = Inr (after2, []) \<and>
   length (body (snake after2)) = 2 \<and> count (score after2) = 1 \<and>
   reset page [10/21, 9/21, 1/7, 4/21] = Inr (fresh, [1/7, 4/21]) \<and>
   count (score fresh) = 0 \<and> length (body (snake fresh)) = 1 \<and>
   intervals (play fresh) \<noteq> [] \<and> eats (play fresh) \<and>
   handle (play fresh) [1/7, 4/21] Tick = Inr (after1, []) \<and>
   count (score after1) = 1 \<and> length (body (snake after1)) = 2"
proof -
  have e: "eats (play fresh)"
    by (simp add: eats_def fresh_def getNextStepHeadPoint_def)
  have i: "intervals (play fresh) \<noteq> []" by simp
  have r1: "started page [10/21, 9/21, 1/7, 4/21] [PlayClick, Tick, Tick] = Inr (after2, [])"
    unfolding after2_def by (rule run1)
  have t1: "handle (play fresh) [1/7, 4/21] Tick = Inr (after1, [])"
    unfolding after1_def by (rule tick_fresh)
  note T = score_is_length_minus_one [of page "[10/21, 9/21, 1/7, 4/21]" "[PlayClick, Tick, Tick]"
      after2 "[]" fresh "[1/7, 4/21]" "play fresh" "[1/7, 4/21]" Tick after1 "[]"]
  have a: "count (score after2) = int (length (body (snake after2))) - 1"
    using T r1 by blast
  have b: "count (score fresh) = 0 \<and> length (body (snake fresh)) = 1"
    using T reset_page by blast
  have "case Tick of
         NewGameClick \<Rightarrow> count (score after1) = 0 \<and> length (body (snake after1)) = 1
       | Tick \<Rightarrow>
           if intervals (play fresh) \<noteq> [] \<and> eats (play fresh)
           then count (score after1) = count (score (play fresh)) + 1 \<and>
                length (body (snake after1)) = length (body (snake (play fresh))) + 1
           else count (score after1) = count (score (play fresh)) \<and>
                length (body (snake after1)) = length (body (snake (play fresh)))
       | _ \<Rightarrow> count (score after1) = count (score (play fresh)) \<and>
              length (body (snake after1)) = length (body (snake (play fresh)))"
    using T t1 by blast
  with e i have c: "count (score after1) = count (score (play fresh)) + 1 \<and>
                length (body (snake after1)) = length (body (snake (play fresh))) + 1"
    by simp
  have l: "length (body (snake after2)) = 2" by (simp add: after2_def)
  from a b c l r1 t1 reset_page e i show ?thesis by simp
qed

text \<open>
  Claim C4. The game starts with \<^verbatim>\<open>reset()\<close> while no interval exists, and goes on by
  clicks, keys and timer callbacks. In every state reached, at most one interval is active:
  exactly the one in \<^verbatim>\<open>tickInterval\<close> while the status is playing, none otherwise.
  \<^verbatim>\<open>stop()\<close> and \<^verbatim>\<open>finish()\<close> leave no interval active. \<^verbatim>\<open>play()\<close> is called
  by the play click only when the status is stopped, where no interval is active, and then
  the interval it starts is the only one. A second \<^verbatim>\<open>stop()\<close> changes nothing.
\<close>

theorem one_tick_timer:
  assumes "intervals g0 = []" and "started g0 rs evs = Inr (g, rs')"
  shows "length (intervals g) \<le> 1 \<and>
         (isPlaying (status g) \<longrightarrow> (\<exists>i. tickInterval g = Some i \<and> intervals g = [i])) \<and>
         (\<not> isPlaying (status g) \<longrightarrow> intervals g = []) \<and>
         intervals (stop g) = [] \<and>
         intervals (finish g) = [] \<and>
         (isStopped (status g) \<longrightarrow> intervals (play g) = [nextInterval g]) \<and>
         length (intervals (playClickHandler g)) \<le> 1 \<and>
         stop (stop g) = stop g \<and>
         intervals (stop (stop g)) = []"
proof -
  have inv: "oneTimer g" using assms by (rule started_oneTimer)
  have st: "isStopped (status g) \<Longrightarrow> \<not> isPlaying (status g)"
    by (simp add: isStopped_def isPlaying_def)
  have "isStopped (status g) \<longrightarrow> intervals (play g) = [nextInterval g]"
    using oneTimer_not_playing [OF inv] st by simp
  moreover have "length (intervals (playClickHandler g)) \<le> 1"
    using playClickHandler_oneTimer [OF inv] by (rule oneTimer_length)
  moreover have "intervals (stop g) = []" "intervals (finish g) = []"
    using stop_clears [of g] finish_clears [of g] inv by simp_all
  moreover have "intervals (stop (stop g)) = []"
    using stop_clears [of g] inv by (simp add: stop_stop)
  ultimately show ?thesis
    using oneTimer_length [OF inv] oneTimer_playing [OF inv] oneTimer_not_playing [OF inv]
      stop_stop [of g]
    by simp
qed

text \<open>
  Two runs from the page as loaded. After play, two ticks with a key in between, stop,
  play, stop, play the game is playing and interval 2 is the only one active. After play
  and stop the game is stopped, no interval is active, and \<^verbatim>\<open>play()\<close> would start
  interval 1 alone.
\<close>

theorem one_tick_timer_witness:
  "intervals page = [] \<and>
   (\<exists>g. started page [1/7, 4/21]
          [PlayClick, Tick, KeyDown ''ArrowLeft'', Tick, PlayClick, PlayClick, PlayClick, PlayClick]
          = Inr (g, []) \<and>
        isPlaying (status g) \<and> tickInterval g = Some 2 \<and> intervals g = [2] \<and>
        intervals (stop g) = [] \<and> intervals (finish g) = [] \<and> stop (stop g) = stop g) \<and>
   (\<exists>g. started page [1/7, 4/21] [PlayClick, PlayClick] = Inr (g, []) \<and>
        isStopped (status g) \<and> intervals g = [] \<and> intervals (play g) = [1] \<and>
        length (intervals (playClickHandler g)) \<le> 1)"
proof -
  have i: "intervals page = []" by (simp add: page_def loaded_def)
  have n: "nextInterval (stop (play (fresh\<lparr>food := \<lparr>food_x = Some 3, food_y = Some 4\<rparr>\<rparr>))) = 1"
    by (simp add: fresh_def)
  from one_tick_timer [OF i run2] one_tick_timer [OF i run3] i run2 run3 n show ?thesis
    by (simp add: isPlaying_def)
qed

end
